theory Spec2Isabelle
  imports Main "HOL-Library.AList"
begin

section \<open>Python values, dictionaries and exceptions\<close>

text \<open>
  The scalar values that travel through the group dictionary of a match and through the
  values of a severity map: \<open>None\<close>, booleans, integers and strings.
\<close>

datatype pyval = PNone | PBool bool | PInt int | PStr string

text \<open>
  A compiled regular expression (the result of \<open>re.compile\<close>) is used by
  \<open>Linter.py\<close> through two attributes only: \<open>groupindex\<close>, the names of its named
  groups, and \<open>finditer\<close>, the non-overlapping matches in a text from left to right.
  The regular expression engine belongs to Python's library, so a pattern is given by
  these two: each match it finds is the function from a group name to the text the group
  captured, \<open>None\<close> for a group that took no part in the match.
\<close>

datatype pattern =
  Pattern (groupindex: "string list") (finditer: "string \<Rightarrow> (string \<Rightarrow> string option) list")

text \<open>
  A match object knows the named groups of the pattern it comes from, which are the keys
  of \<open>match.groupdict()\<close>.
\<close>

datatype match = Match (group_names: "string list") (group: "string \<Rightarrow> string option")

definition py_finditer :: "pattern \<Rightarrow> string \<Rightarrow> match list" where
  "py_finditer p output = map (Match (groupindex p)) (finditer p output)"

definition groupdict :: "match \<Rightarrow> (string \<times> pyval) list" where
  "groupdict m =
     map (\<lambda>n. (n, case group m n of None \<Rightarrow> PNone | Some s \<Rightarrow> PStr s)) (group_names m)"

text \<open>
  The values of the \<open>options\<close> dictionary: a scalar, a dictionary with string keys (a
  severity map) or a compiled pattern.
\<close>

datatype optval = Val pyval | Dict "(string \<times> pyval) list" | Compiled pattern

type_synonym options = "(string \<times> optval) list"

text \<open>
  Exceptions. A message is kept as its parts: literal text, and \<open>repr\<close> of a value.
  \<open>KeyError\<close> carries the missing key, \<open>ReError\<close> the pattern text that
  \<open>re.compile\<close> rejected, \<open>AttributeError\<close> the missing attribute, \<open>OSError\<close>
  the command that could not be started.
\<close>

datatype part = Text string | Repr optval

datatype exn =
    ValueError "part list"
  | TypeError "part list"
  | KeyError pyval
  | ReError string
  | AttributeError string
  | OSError "string list"

text \<open>A dictionary is an association list; \<open>k in d\<close>, \<open>d[k]\<close> and \<open>d[k] = v\<close>.\<close>

definition contains :: "(string \<times> 'v) list \<Rightarrow> string \<Rightarrow> bool" where
  "contains d k = (map_of d k \<noteq> None)"

definition getitem :: "(string \<times> 'v) list \<Rightarrow> string \<Rightarrow> exn + 'v" where
  "getitem d k = (case map_of d k of None \<Rightarrow> Inl (KeyError (PStr k)) | Some v \<Rightarrow> Inr v)"

definition setitem :: "(string \<times> 'v) list \<Rightarrow> string \<Rightarrow> 'v \<Rightarrow> (string \<times> 'v) list" where
  "setitem d k v = AList.update k v d"

subsection \<open>\<open>RESULT_SEVERITY\<close>\<close>

text \<open>
  Modelled from the spec: \<open>RESULT_SEVERITY\<close> (\<open>coalib.results.RESULT_SEVERITY\<close>) is
  not among the sources. The spec's severity is an enumeration of the three levels MAJOR,
  NORMAL and INFO; the source passes a severity to \<open>int()\<close> (line 293) and looks one
  up in the dictionary \<open>RESULT_SEVERITY.reverse\<close>, whose keys are the three levels
  (line 158). The levels are three different integers, numbered from 0 in the order of
  their importance.
\<close>

definition INFO :: int where "INFO = 0"
definition NORMAL :: int where "NORMAL = 1"
definition MAJOR :: int where "MAJOR = 2"

text \<open>
  \<open>value in RESULT_SEVERITY.reverse\<close>: a dictionary lookup by hash and equality, so
  \<open>False\<close> and \<open>True\<close> are found as 0 and 1, and an unhashable value raises.
\<close>

fun in_reverse :: "optval \<Rightarrow> exn + bool" where
  "in_reverse (Val (PInt i)) = Inr (i = INFO \<or> i = NORMAL \<or> i = MAJOR)"
| "in_reverse (Val (PBool b)) = Inr True"
| "in_reverse (Val PNone) = Inr False"
| "in_reverse (Val (PStr s)) = Inr False"
| "in_reverse (Dict d) = Inl (TypeError [Text ''unhashable type: '', Repr (Val (PStr ''dict''))])"
| "in_reverse (Compiled p) = Inr False"

subsection \<open>Builtins: truth value, \<open>str\<close>, \<open>int\<close>\<close>

fun truthy :: "pyval \<Rightarrow> bool" where
  "truthy PNone = False"
| "truthy (PBool b) = b"
| "truthy (PInt i) = (i \<noteq> 0)"
| "truthy (PStr s) = (s \<noteq> [])"

definition digit_char :: "nat \<Rightarrow> char" where
  "digit_char d = char_of (48 + d)"

function digits :: "nat \<Rightarrow> string" where
  "digits n = (if n < 10 then [digit_char n] else digits (n div 10) @ [digit_char (n mod 10)])"
  by pat_completeness auto
termination
  by (relation "measure (\<lambda>n. n)") auto

definition str_int :: "int \<Rightarrow> string" where
  "str_int i = (if i < 0 then CHR ''-'' # digits (nat (- i)) else digits (nat i))"

fun py_str :: "pyval \<Rightarrow> string" where
  "py_str PNone = ''None''"
| "py_str (PBool b) = (if b then ''True'' else ''False'')"
| "py_str (PInt i) = str_int i"
| "py_str (PStr s) = s"

text \<open>
  \<open>int(s)\<close> for a string: surrounding whitespace is stripped, a sign may lead, and the
  rest is decimal digits, where single underscores may stand between digits. Characters
  are the code points below 256. The whitespace that \<open>int\<close> strips is tab, line feed,
  vertical tab, form feed, carriage return, space, next line and no-break space; the
  separators 28 to 31 are not stripped, and a text that holds one is rejected.
\<close>

definition is_space :: "char \<Rightarrow> bool" where
  "is_space c = (let n = (of_char c :: nat) in
     (9 \<le> n \<and> n \<le> 13) \<or> n = 32 \<or> n = 133 \<or> n = 160)"

definition strip :: "string \<Rightarrow> string" where
  "strip s = rev (dropWhile is_space (rev (dropWhile is_space s)))"

definition is_digit :: "char \<Rightarrow> bool" where
  "is_digit c = (let n = (of_char c :: nat) in 48 \<le> n \<and> n \<le> 57)"

definition digit_val :: "char \<Rightarrow> int" where
  "digit_val c = int (of_char c) - 48"

fun valid_digits :: "string \<Rightarrow> bool" where
  "valid_digits [] = False"
| "valid_digits [c] = is_digit c"
| "valid_digits (c # d # cs) =
     (is_digit c \<and> (if d = CHR ''_'' then valid_digits cs else valid_digits (d # cs)))"

definition parse_digits :: "string \<Rightarrow> int option" where
  "parse_digits ds =
     (if valid_digits ds
      then Some (foldl (\<lambda>acc c. 10 * acc + digit_val c) 0 (filter (\<lambda>c. c \<noteq> CHR ''_'') ds))
      else None)"

definition int_of_str :: "string \<Rightarrow> int option" where
  "int_of_str s =
     (case strip s of
        [] \<Rightarrow> None
      | c # cs \<Rightarrow>
          if c = CHR ''-'' then map_option uminus (parse_digits cs)
          else if c = CHR ''+'' then parse_digits cs
          else parse_digits (c # cs))"

fun py_int :: "pyval \<Rightarrow> exn + int" where
  "py_int (PInt i) = Inr i"
| "py_int (PBool b) = Inr (if b then 1 else 0)"
| "py_int (PStr s) =
     (case int_of_str s of
        Some i \<Rightarrow> Inr i
      | None \<Rightarrow> Inl (ValueError [Text ''invalid literal for int() with base 10: '',
                                  Repr (Val (PStr s))]))"
| "py_int PNone =
     Inl (TypeError [Text ''int() argument must be a string, a bytes-like object or a number, not '',
                     Repr (Val (PStr ''NoneType''))])"

subsection \<open>\<open>assert_right_type\<close>\<close>

datatype pytype = TStr | TDict

fun isinstance :: "optval \<Rightarrow> pytype \<Rightarrow> bool" where
  "isinstance (Val (PStr s)) TStr = True"
| "isinstance (Dict d) TDict = True"
| "isinstance v t = False"

text \<open>
  Modelled from the spec: \<open>assert_right_type\<close> (\<open>coalib.misc.Decorators\<close>) is not among
  the sources. The spec asks that \<open>diff_message\<close> be a string if supplied, and the
  docstring of \<open>Linter\<close> that incompatible types raise \<open>TypeError\<close>: the value
  passes when it is an instance of one of the given types, and a \<open>TypeError\<close> naming
  the argument is raised otherwise.
\<close>

definition assert_right_type :: "optval \<Rightarrow> pytype list \<Rightarrow> string \<Rightarrow> exn + unit" where
  "assert_right_type v types argname =
     (if list_ex (isinstance v) types then Inr ()
      else Inl (TypeError [Text argname, Text '' must be an instance of one of the given types (provided value: '',
                           Repr v, Text '')'']))"

section \<open>The decorator \<open>Linter\<close>\<close>

text \<open>\<open>re.compile\<close> of an option value: a pattern text is compiled by the library
  (\<open>re_compile\<close>, which rejects an invalid text), a compiled pattern is returned as it
  is, anything else is a type error.\<close>

fun compile :: "(string \<Rightarrow> pattern option) \<Rightarrow> optval \<Rightarrow> exn + pattern" where
  "compile re_compile (Val (PStr s)) =
     (case re_compile s of None \<Rightarrow> Inl (ReError s) | Some p \<Rightarrow> Inr p)"
| "compile re_compile (Compiled p) = Inr p"
| "compile re_compile v =
     Inl (TypeError [Text ''first argument must be string or compiled pattern'', Repr v])"

text \<open>The branch \<open>if options["provides_correction"]\<close>.\<close>

definition correction_options :: "options \<Rightarrow> exn + options" where
  "correction_options options =
     (case (case map_of options ''diff_severity'' of
              None \<Rightarrow> Inr (setitem options ''diff_severity'' (Val (PInt NORMAL)))
            | Some v \<Rightarrow>
                (case in_reverse v of
                   Inl e \<Rightarrow> Inl e
                 | Inr True \<Rightarrow> Inr options
                 | Inr False \<Rightarrow>
                     Inl (TypeError [Text ''Invalid value for `diff_severity`: '', Repr v]))) of
        Inl e \<Rightarrow> Inl e
      | Inr options1 \<Rightarrow>
          (case map_of options1 ''diff_message'' of
             None \<Rightarrow> Inr (setitem options1 ''diff_message'' (Val (PStr ''Inconsistency found.'')))
           | Some v \<Rightarrow>
               (case assert_right_type v [TStr] ''diff_message'' of
                  Inl e \<Rightarrow> Inl e
                | Inr u \<Rightarrow> Inr options1)))"

text \<open>The \<open>else\<close> branch: \<open>output_regex\<close> is required and compiled, and the severity
  map is checked or installed.\<close>

definition default_severity_map :: "(string \<times> pyval) list" where
  "default_severity_map =
     [(''error'', PInt MAJOR), (''warning'', PInt NORMAL), (''info'', PInt INFO)]"

definition regex_options :: "(string \<Rightarrow> pattern option) \<Rightarrow> options \<Rightarrow> exn + options" where
  "regex_options re_compile options =
     (case map_of options ''output_regex'' of
        None \<Rightarrow> Inl (ValueError [Text ''No `output_regex` specified.''])
      | Some r \<Rightarrow>
          (case compile re_compile r of
             Inl e \<Rightarrow> Inl e
           | Inr p \<Rightarrow>
               (let options1 = setitem options ''output_regex'' (Compiled p) in
                case map_of options1 ''severity_map'' of
                  Some sm \<Rightarrow>
                    if ''severity'' \<notin> set (groupindex p)
                    then Inl (ValueError [Text ''Provided `severity_map` but named group `severity` is not used in `output_regex`.''])
                    else (case assert_right_type sm [TDict] ''severity_map'' of
                            Inl e \<Rightarrow> Inl e
                          | Inr u \<Rightarrow> Inr options1)
                | None \<Rightarrow>
                    if ''severity'' \<in> set (groupindex p)
                    then Inr (setitem options1 ''severity_map'' (Dict default_severity_map))
                    else Inr options1)))"

text \<open>
  The check for superfluous options. \<open>superfluous_options.pop()\<close> removes an arbitrary
  element of a set; which one is a detail of the hash table, so the choice is the
  parameter \<open>pop\<close>, applied to the superfluous keys.
\<close>

definition superfluous_options :: "options \<Rightarrow> string list \<Rightarrow> string list" where
  "superfluous_options options allowed_options =
     filter (\<lambda>k. k \<notin> set allowed_options) (map fst options)"

definition check_superfluous ::
  "(string list \<Rightarrow> string) \<Rightarrow> options \<Rightarrow> string list \<Rightarrow> exn + options" where
  "check_superfluous pop options allowed_options =
     (if superfluous_options options allowed_options \<noteq> []
      then Inl (ValueError [Text ''Invalid keyword argument '',
                            Repr (Val (PStr (pop (superfluous_options options allowed_options)))),
                            Text '' provided.''])
      else Inr options)"

text \<open>
  Lines 142 to 146: the five named parameters are stored in \<open>options\<close>, next to the
  keyword arguments. Line 146 stores \<open>use_stderr\<close> under the key \<open>config_suffix\<close>.
\<close>

definition initial_options ::
  "string \<Rightarrow> bool \<Rightarrow> bool \<Rightarrow> bool \<Rightarrow> string \<Rightarrow> options \<Rightarrow> options" where
  "initial_options executable provides_correction use_stdin use_stderr config_suffix kwargs =
     (let options0 = setitem kwargs ''executable'' (Val (PStr executable));
          options1 = setitem options0 ''provides_correction'' (Val (PBool provides_correction));
          options2 = setitem options1 ''use_stdin'' (Val (PBool use_stdin));
          options3 = setitem options2 ''use_stderr'' (Val (PBool use_stderr))
      in setitem options3 ''config_suffix'' (Val (PBool use_stderr)))"

definition allowed_options :: "string list" where
  "allowed_options =
     [''executable'', ''provides_correction'', ''use_stdin'', ''use_stderr'', ''config_suffix'']"

text \<open>
  \<open>Linter(executable, provides_correction, use_stdin, use_stderr, config_suffix,
  **options)\<close> up to the definition of \<open>create_linter\<close>: the validated \<open>options\<close>
  that the returned decorator closes over, or the exception raised. The annotations
  checked by \<open>enforce_signature\<close> are the types of the parameters.
\<close>

definition Linter ::
  "(string \<Rightarrow> pattern option) \<Rightarrow> (string list \<Rightarrow> string) \<Rightarrow>
   string \<Rightarrow> bool \<Rightarrow> bool \<Rightarrow> bool \<Rightarrow> string \<Rightarrow> options \<Rightarrow> exn + options" where
  "Linter re_compile pop executable provides_correction use_stdin use_stderr config_suffix kwargs =
     (let options = initial_options executable provides_correction use_stdin use_stderr
                      config_suffix kwargs
      in if provides_correction
         then (case correction_options options of
                 Inl e \<Rightarrow> Inl e
               | Inr options' \<Rightarrow>
                   check_superfluous pop options'
                     (allowed_options @ [''diff_severity'', ''diff_message'']))
         else (case regex_options re_compile options of
                 Inl e \<Rightarrow> Inl e
               | Inr options' \<Rightarrow>
                   check_superfluous pop options'
                     (allowed_options @ [''output_regex'', ''severity_map''])))"

section \<open>The class \<open>Linter\<close> made by \<open>create_linter\<close>\<close>

text \<open>
  The interface class: the decorated class mixed into the default interface. Its two
  static methods are code of the tool's author; either may raise. \<open>file\<close> is the
  sequence of the lines of the file, \<open>kwargs\<close> the settings.
\<close>

record interface =
  klass_name :: string
  create_arguments ::
    "string \<Rightarrow> string list \<Rightarrow> string option \<Rightarrow> (string \<times> pyval) list \<Rightarrow> exn + string list"
  generate_config ::
    "string \<Rightarrow> string list \<Rightarrow> (string \<times> pyval) list \<Rightarrow> exn + string option"

fun truthy_opt :: "optval \<Rightarrow> bool" where
  "truthy_opt (Val v) = truthy v"
| "truthy_opt (Dict d) = (d \<noteq> [])"
| "truthy_opt (Compiled p) = True"

text \<open>
  The class body reads three flags of \<open>options\<close> when the class is created, to choose
  between the two definitions of \<open>_process_output\<close>, of \<open>_grab_output\<close> and of
  \<open>_pass_file_as_stdin_if_needed\<close>; the class keeps the choices made.
\<close>

record linter =
  options_of :: options
  klass :: interface
  corrects :: bool
  grabs_stderr :: bool
  passes_stdin :: bool

definition create_linter :: "options \<Rightarrow> interface \<Rightarrow> exn + linter" where
  "create_linter options kl =
     (case getitem options ''provides_correction'' of
        Inl e \<Rightarrow> Inl e
      | Inr pc \<Rightarrow>
          (case getitem options ''use_stderr'' of
             Inl e \<Rightarrow> Inl e
           | Inr ue \<Rightarrow>
               (case getitem options ''use_stdin'' of
                  Inl e \<Rightarrow> Inl e
                | Inr us \<Rightarrow>
                    Inr \<lparr>options_of = options, klass = kl, corrects = truthy_opt pc,
                         grabs_stderr = truthy_opt ue, passes_stdin = truthy_opt us\<rparr>)))"

subsection \<open>Results\<close>

text \<open>A patch: the lines \<open>removed\<close> of the original file, the first of them being line
  \<open>start\<close> (counted from 1), are replaced by the lines \<open>replacement\<close>. With nothing
  removed, the replacement is inserted before line \<open>start\<close>.\<close>

record hunk =
  start :: nat
  removed :: "string list"
  replacement :: "string list"

record source_range =
  range_file :: string
  start_line :: pyval
  start_column :: pyval
  end_line :: pyval
  end_column :: pyval

datatype origin = Bear | Origin pyval

record result =
  origin :: origin
  message :: optval
  affected_code :: "source_range list"
  severity :: optval
  diffs :: "(string \<times> hunk) list"

text \<open>
  Modelled from the spec: the class \<open>Result\<close> (\<open>coalib.results.Result\<close>) is not among
  the sources. The spec's Diagnostic has an origin, a message that is a string, the
  target file, a severity that is one of MAJOR, NORMAL and INFO, a line, a column, an end
  line and an end column that are positive integers when present, and an optional patch.
  \<open>Result.from_values\<close> makes the diagnostic, without a patch, from values that fit
  this, and raises for a value that does not: \<open>TypeError\<close> for a value of another
  type, \<open>ValueError\<close> for an integer that is out of range. The message is looked at
  first, then line, column, end line and end column, then the severity.
\<close>

definition valid_severity :: "int \<Rightarrow> bool" where
  "valid_severity sev = (sev = INFO \<or> sev = NORMAL \<or> sev = MAJOR)"

fun bad_position :: "string \<Rightarrow> pyval \<Rightarrow> exn option" where
  "bad_position name PNone = None"
| "bad_position name (PInt i) =
     (if 0 < i then None
      else Some (ValueError [Text name, Text '' must be positive: '', Repr (Val (PInt i))]))"
| "bad_position name (PBool b) =
     (if b then None
      else Some (ValueError [Text name, Text '' must be positive: '', Repr (Val (PBool b))]))"
| "bad_position name (PStr s) =
     Some (TypeError [Text name, Text '' must be an integer or None: '', Repr (Val (PStr s))])"

definition from_values ::
  "origin \<Rightarrow> pyval \<Rightarrow> string \<Rightarrow> int \<Rightarrow> pyval \<Rightarrow> pyval \<Rightarrow> pyval \<Rightarrow> pyval \<Rightarrow> exn + result" where
  "from_values orig msg fl sev ln col eln ecol =
     (case msg of
        PStr text \<Rightarrow>
          (case bad_position ''line'' ln of
             Some e \<Rightarrow> Inl e
           | None \<Rightarrow>
               (case bad_position ''column'' col of
                  Some e \<Rightarrow> Inl e
                | None \<Rightarrow>
                    (case bad_position ''end_line'' eln of
                       Some e \<Rightarrow> Inl e
                     | None \<Rightarrow>
                         (case bad_position ''end_column'' ecol of
                            Some e \<Rightarrow> Inl e
                          | None \<Rightarrow>
                              if valid_severity sev
                              then Inr \<lparr>origin = orig, message = Val msg,
                                        affected_code =
                                          [\<lparr>range_file = fl, start_line = ln, start_column = col,
                                            end_line = eln, end_column = ecol\<rparr>],
                                        severity = Val (PInt sev), diffs = []\<rparr>
                              else Inl (ValueError
                                          [Text ''severity is not a valid RESULT_SEVERITY: '',
                                           Repr (Val (PInt sev))])))))
      | v \<Rightarrow> Inl (TypeError [Text ''message must be a string: '', Repr (Val v)]))"

subsection \<open>\<open>_convert_output_regex_match_to_result\<close>\<close>

text \<open>The first \<open>if\<close>, once \<open>options["severity_map"]\<close> has been read: the captured
  label is replaced by its value in the map when the map is a dictionary, the group
  dictionary has the key \<open>severity\<close> and the label is a key of the map.\<close>

fun map_severity :: "optval \<Rightarrow> (string \<times> pyval) list \<Rightarrow> (string \<times> pyval) list" where
  "map_severity (Dict sm) groups =
     (case map_of groups ''severity'' of
        Some (PStr label) \<Rightarrow>
          (case map_of sm label of
             Some v \<Rightarrow> setitem groups ''severity'' v
           | None \<Rightarrow> groups)
      | _ \<Rightarrow> groups)"
| "map_severity v groups = groups"

text \<open>The loop over the four numeric groups.\<close>

fun convert_numbers :: "string list \<Rightarrow> (string \<times> pyval) list \<Rightarrow> exn + (string \<times> pyval) list" where
  "convert_numbers [] groups = Inr groups"
| "convert_numbers (variable # variables) groups =
     (case map_of groups variable of
        None \<Rightarrow> convert_numbers variables groups
      | Some v \<Rightarrow>
          if truthy v
          then (case py_int v of
                  Inl e \<Rightarrow> Inl e
                | Inr i \<Rightarrow> convert_numbers variables (setitem groups variable (PInt i)))
          else convert_numbers variables groups)"

definition format_origin :: "string \<Rightarrow> pyval \<Rightarrow> string" where
  "format_origin name v = name @ '' ('' @ py_str v @ '')''"

definition dict_get :: "(string \<times> 'v) list \<Rightarrow> string \<Rightarrow> 'v \<Rightarrow> 'v" where
  "dict_get d k dflt = (case map_of d k of None \<Rightarrow> dflt | Some v \<Rightarrow> v)"

definition numeric_groups :: "string list" where
  "numeric_groups = [''line'', ''column'', ''end_line'', ''end_column'']"

definition convert_output_regex_match_to_result :: "linter \<Rightarrow> match \<Rightarrow> string \<Rightarrow> exn + result" where
  "convert_output_regex_match_to_result self m filename =
     (let groups = groupdict m in
      case getitem (options_of self) ''severity_map'' of
        Inl e \<Rightarrow> Inl e
      | Inr sm \<Rightarrow>
          (case convert_numbers numeric_groups (map_severity sm groups) of
             Inl e \<Rightarrow> Inl e
           | Inr groups1 \<Rightarrow>
               (let groups2 =
                      (case map_of groups1 ''origin'' of
                         None \<Rightarrow> groups1
                       | Some v \<Rightarrow>
                           setitem groups1 ''origin''
                             (PStr (format_origin (klass_name (klass self)) v)))
                in case py_int (dict_get groups2 ''severity'' (PInt NORMAL)) of
                     Inl e \<Rightarrow> Inl e
                   | Inr sev \<Rightarrow>
                       from_values
                         (case map_of groups2 ''origin'' of None \<Rightarrow> Bear | Some v \<Rightarrow> Origin v)
                         (dict_get groups2 ''message'' (PStr []))
                         filename
                         sev
                         (dict_get groups2 ''line'' PNone)
                         (dict_get groups2 ''column'' PNone)
                         (dict_get groups2 ''end_line'' PNone)
                         (dict_get groups2 ''end_column'' PNone))))"

subsection \<open>Generators\<close>

text \<open>
  \<open>_process_output\<close> is a generator: it yields one result per element of the sequence
  it loops over, and stops at the first exception. Its value is the list of the results
  yielded, and the exception that ended it, if any.
\<close>

fun yield_each :: "('a \<Rightarrow> exn + 'b) \<Rightarrow> 'a list \<Rightarrow> 'b list \<times> exn option" where
  "yield_each f [] = ([], None)"
| "yield_each f (x # xs) =
     (case f x of
        Inl e \<Rightarrow> ([], Some e)
      | Inr y \<Rightarrow> (case yield_each f xs of (ys, err) \<Rightarrow> (y # ys, err)))"

subsection \<open>\<open>_process_output\<close> without correction\<close>

definition process_output_regex ::
  "linter \<Rightarrow> string \<Rightarrow> string \<Rightarrow> string list \<Rightarrow> result list \<times> exn option" where
  "process_output_regex self output filename file =
     (case getitem (options_of self) ''output_regex'' of
        Inl e \<Rightarrow> ([], Some e)
      | Inr (Compiled p) \<Rightarrow>
          yield_each (\<lambda>m. convert_output_regex_match_to_result self m filename)
            (py_finditer p output)
      | Inr v \<Rightarrow> ([], Some (AttributeError ''finditer'')))"

subsection \<open>Lines of a text\<close>

text \<open>
  \<open>output.splitlines(keepends=True)\<close>: the text is cut after every line boundary, and
  the boundaries stay. The boundaries among the code points below 256 are line feed,
  vertical tab, form feed, carriage return (with a line feed that follows it), the file,
  group and record separators, and next line.
\<close>

definition is_linebreak :: "char \<Rightarrow> bool" where
  "is_linebreak c = (let n = (of_char c :: nat) in
     (10 \<le> n \<and> n \<le> 13) \<or> (28 \<le> n \<and> n \<le> 30) \<or> n = 133)"

fun splitlines_from :: "string \<Rightarrow> string \<Rightarrow> string list" where
  "splitlines_from cur [] = (if cur = [] then [] else [cur])"
| "splitlines_from cur [c] = [cur @ [c]]"
| "splitlines_from cur (c # d # cs) =
     (if c = CHR 0x0D \<and> d = CHR 0x0A then (cur @ [c, d]) # splitlines_from [] cs
      else if is_linebreak c then (cur @ [c]) # splitlines_from [] (d # cs)
      else splitlines_from (cur @ [c]) (d # cs))"

definition splitlines :: "string \<Rightarrow> string list" where
  "splitlines output = splitlines_from [] output"

subsection \<open>Diffs\<close>

text \<open>
  Modelled from the spec: the class \<open>Diff\<close> (\<open>coalib.results.Diff\<close>), with
  \<open>from_string_arrays\<close>, \<open>split_diff\<close> and \<open>range\<close>, is not among the sources. The
  spec's Diff Extractor computes a line-level structural diff of the original lines and
  the corrected lines, and cuts it into maximal hunks: runs of consecutive changed lines
  (insertion, deletion or replacement) that no unchanged line interrupts, in ascending
  line order. The range of a hunk is the span of original lines it covers, its patch
  replaces that span by the corresponding span of the corrected output.

  The structural diff is an edit script: every line of the original is kept or deleted,
  every line of the corrected text is kept or inserted. \<open>from_string_arrays\<close> takes
  a script with the fewest changes (a longest common subsequence is kept).
\<close>

datatype change = Keep string | Delete string | Insert string

fun is_change :: "change \<Rightarrow> bool" where
  "is_change (Keep l) = False"
| "is_change (Delete l) = True"
| "is_change (Insert l) = True"

fun deleted :: "change list \<Rightarrow> string list" where
  "deleted [] = []"
| "deleted (Delete l # cs) = l # deleted cs"
| "deleted (c # cs) = deleted cs"

fun inserted :: "change list \<Rightarrow> string list" where
  "inserted [] = []"
| "inserted (Insert l # cs) = l # inserted cs"
| "inserted (c # cs) = inserted cs"

definition cost :: "change list \<Rightarrow> nat" where
  "cost cs = length (filter is_change cs)"

fun from_string_arrays :: "string list \<Rightarrow> string list \<Rightarrow> change list" where
  "from_string_arrays [] ys = map Insert ys"
| "from_string_arrays xs [] = map Delete xs"
| "from_string_arrays (x # xs) (y # ys) =
     (if x = y then Keep x # from_string_arrays xs ys
      else (let d = Delete x # from_string_arrays xs (y # ys);
                i = Insert y # from_string_arrays (x # xs) ys
            in if cost d \<le> cost i then d else i))"

text \<open>\<open>split_from n cs\<close>: the hunks of the script \<open>cs\<close>, whose first original line is
  line \<open>n\<close>.\<close>

function split_from :: "nat \<Rightarrow> change list \<Rightarrow> hunk list" where
  "split_from n [] = []"
| "split_from n (c # cs) =
     (if is_change c
      then (let run = takeWhile is_change (c # cs);
                rest = dropWhile is_change (c # cs)
            in \<lparr>start = n, removed = deleted run, replacement = inserted run\<rparr>
               # split_from (n + length (deleted run)) rest)
      else split_from (Suc n) cs)"
  by pat_completeness auto
termination
  by (relation "measure (\<lambda>(n, cs). length cs)")
     (auto simp: le_imp_less_Suc length_dropWhile_le)

definition split_diff :: "change list \<Rightarrow> hunk list" where
  "split_diff cs = split_from 1 cs"

text \<open>\<open>diff.range(filename)\<close>: the first and the last original line the hunk covers; a
  hunk that only inserts covers no line, and its last line is the one before its
  first.\<close>

definition diff_range :: "hunk \<Rightarrow> string \<Rightarrow> source_range" where
  "diff_range h filename =
     \<lparr>range_file = filename, start_line = PInt (int (start h)), start_column = PNone,
      end_line = PInt (int (start h) + int (length (removed h)) - 1), end_column = PNone\<rparr>"

definition range_lines :: "source_range \<Rightarrow> int set" where
  "range_lines r =
     (case (start_line r, end_line r) of
        (PInt a, PInt b) \<Rightarrow> {a..b}
      | _ \<Rightarrow> {})"

definition first_line :: "source_range \<Rightarrow> int" where
  "first_line r = (case start_line r of PInt a \<Rightarrow> a | _ \<Rightarrow> 0)"

text \<open>
  Applying a patch to a text that earlier patches have changed: \<open>shift\<close> is the number
  of lines the earlier patches have added, less the number they have removed, so line
  \<open>start\<close> of the original is line \<open>start + shift\<close> of the text. Patches are applied
  one after the other, in the order given.
\<close>

definition apply_patch :: "int \<times> string list \<Rightarrow> hunk \<Rightarrow> int \<times> string list" where
  "apply_patch st h =
     (let i = nat (int (start h) - 1 + fst st)
      in (fst st + int (length (replacement h)) - int (length (removed h)),
          take i (snd st) @ replacement h @ drop (i + length (removed h)) (snd st)))"

definition apply_patches :: "hunk list \<Rightarrow> string list \<Rightarrow> string list" where
  "apply_patches hs file = snd (foldl apply_patch (0, file) hs)"

subsection \<open>\<open>_process_output\<close> with correction\<close>

text \<open>\<open>Result(self, message, affected_code=(range,), diffs={filename: diff},
  severity=severity)\<close>: the diagnostic with one patch. Its message and its severity are
  the options \<open>diff_message\<close> and \<open>diff_severity\<close>, which \<open>Linter\<close> has
  checked.\<close>

definition Result :: "origin \<Rightarrow> optval \<Rightarrow> source_range list \<Rightarrow> (string \<times> hunk) list \<Rightarrow> optval \<Rightarrow> result" where
  "Result orig msg ranges ds sev =
     \<lparr>origin = orig, message = msg, affected_code = ranges, severity = sev, diffs = ds\<rparr>"

definition process_output_diff ::
  "linter \<Rightarrow> string \<Rightarrow> string \<Rightarrow> string list \<Rightarrow> result list \<times> exn option" where
  "process_output_diff self output filename file =
     yield_each
       (\<lambda>diff.
          case getitem (options_of self) ''diff_message'' of
            Inl e \<Rightarrow> Inl e
          | Inr msg \<Rightarrow>
              (case getitem (options_of self) ''diff_severity'' of
                 Inl e \<Rightarrow> Inl e
               | Inr sev \<Rightarrow>
                   Inr (Result Bear msg [diff_range diff filename] [(filename, diff)] sev)))
       (split_diff (from_string_arrays file (splitlines output)))"

definition process_output ::
  "linter \<Rightarrow> string \<Rightarrow> string \<Rightarrow> string list \<Rightarrow> result list \<times> exn option" where
  "process_output self output filename file =
     (if corrects self then process_output_diff self output filename file
      else process_output_regex self output filename file)"

section \<open>Running the tool\<close>

text \<open>
  What the tool did with a command line and an input: the text on its two output
  streams and its exit status.
\<close>

record completed =
  stdout :: string
  stderr :: string
  returncode :: int

text \<open>
  The surroundings of a run: \<open>make_temp\<close> gives the path of a fresh temporary file for
  a suffix, or raises; \<open>tool\<close> is the behaviour of the programs that can be started,
  \<open>None\<close> for a command that cannot be started.
\<close>

record env =
  make_temp :: "optval \<Rightarrow> exn + string"
  tool :: "string list \<Rightarrow> string list option \<Rightarrow> completed option"

text \<open>
  Modelled from the spec: \<open>run_shell_command\<close> (\<open>coalib.misc.Shell\<close>) is not among the
  sources. The spec's command execution primitive takes the argument vector and an
  optional input, returns the pair of the texts of stdout and stderr, and does not raise
  for a non-zero exit code, only when the process cannot be started.
\<close>

definition run_shell_command ::
  "env \<Rightarrow> string list \<Rightarrow> string list option \<Rightarrow> exn + string \<times> string" where
  "run_shell_command ev command stdin =
     (case tool ev command stdin of
        None \<Rightarrow> Inl (OSError command)
      | Some c \<Rightarrow> Inr (stdout c, stderr c))"

definition get_executable :: "linter \<Rightarrow> exn + optval" where
  "get_executable self = getitem (options_of self) ''executable''"

text \<open>\<open>(cls.get_executable(),) + tuple(args)\<close> is the command; its first element is
  a string for every class that \<open>Linter\<close> makes.\<close>

definition execute_command ::
  "env \<Rightarrow> linter \<Rightarrow> string list \<Rightarrow> string list option \<Rightarrow> exn + string \<times> string" where
  "execute_command ev self args stdin =
     (case get_executable self of
        Inl e \<Rightarrow> Inl e
      | Inr (Val (PStr executable)) \<Rightarrow> run_shell_command ev (executable # args) stdin
      | Inr v \<Rightarrow> Inl (TypeError [Text ''expected str, not '', Repr v]))"

definition grab_output :: "linter \<Rightarrow> string \<Rightarrow> string \<Rightarrow> string" where
  "grab_output self out err = (if grabs_stderr self then err else out)"

definition pass_file_as_stdin_if_needed :: "linter \<Rightarrow> string list \<Rightarrow> string list option" where
  "pass_file_as_stdin_if_needed self file = (if passes_stdin self then Some file else None)"

text \<open>
  \<open>_create_config\<close>: the path of the configuration file handed to the body of the
  \<open>with\<close> statement, \<open>None\<close> when \<open>generate_config\<close> returns \<open>None\<close>. The
  temporary file is made with the suffix \<open>options["config_suffix"]\<close>.
\<close>

definition create_config ::
  "env \<Rightarrow> linter \<Rightarrow> string \<Rightarrow> string list \<Rightarrow> (string \<times> pyval) list \<Rightarrow> exn + string option" where
  "create_config ev self filename file kwargs =
     (case generate_config (klass self) filename file kwargs of
        Inl e \<Rightarrow> Inl e
      | Inr None \<Rightarrow> Inr None
      | Inr (Some content) \<Rightarrow>
          (case getitem (options_of self) ''config_suffix'' of
             Inl e \<Rightarrow> Inl e
           | Inr tmp_suffix \<Rightarrow>
               (case make_temp ev tmp_suffix of
                  Inl e \<Rightarrow> Inl e
                | Inr config_file \<Rightarrow> Inr (Some config_file))))"

text \<open>\<open>run\<close> returns the generator that \<open>_process_output\<close> makes, or raises before.\<close>

definition run ::
  "env \<Rightarrow> linter \<Rightarrow> string \<Rightarrow> string list \<Rightarrow> (string \<times> pyval) list \<Rightarrow>
   exn + result list \<times> exn option" where
  "run ev self filename file kwargs =
     (case create_config ev self filename file kwargs of
        Inl e \<Rightarrow> Inl e
      | Inr config_file \<Rightarrow>
          (case create_arguments (klass self) filename file config_file kwargs of
             Inl e \<Rightarrow> Inl e
           | Inr args \<Rightarrow>
               (case execute_command ev self args (pass_file_as_stdin_if_needed self file) of
                  Inl e \<Rightarrow> Inl e
                | Inr (out, err) \<Rightarrow>
                    Inr (process_output self (grab_output self out err) filename file))))"

section \<open>Notions used to state the properties\<close>

text \<open>The text of the stream that \<open>_grab_output\<close> selects from what the tool did.\<close>

definition selected :: "linter \<Rightarrow> completed \<Rightarrow> string" where
  "selected self c = grab_output self (stdout c) (stderr c)"

text \<open>The patches that a sequence of results carries, in order.\<close>

definition patches_of :: "result list \<Rightarrow> hunk list" where
  "patches_of rs = concat (map (\<lambda>r. map snd (diffs r)) rs)"

text \<open>The lines of the original file that a result affects, and the first of them.\<close>

definition result_lines :: "result \<Rightarrow> int set" where
  "result_lines r = \<Union> (set (map range_lines (affected_code r)))"

definition result_first_line :: "result \<Rightarrow> int" where
  "result_first_line r = (case affected_code r of [] \<Rightarrow> 0 | sr # srs \<Rightarrow> first_line sr)"

text \<open>The two texts that an edit script relates.\<close>

fun original_of :: "change list \<Rightarrow> string list" where
  "original_of [] = []"
| "original_of (Insert l # cs) = original_of cs"
| "original_of (Keep l # cs) = l # original_of cs"
| "original_of (Delete l # cs) = l # original_of cs"

fun corrected_of :: "change list \<Rightarrow> string list" where
  "corrected_of [] = []"
| "corrected_of (Delete l # cs) = corrected_of cs"
| "corrected_of (Keep l # cs) = l # corrected_of cs"
| "corrected_of (Insert l # cs) = l # corrected_of cs"

text \<open>Two hunks are apart when an unchanged line lies between them.\<close>

definition apart :: "hunk \<Rightarrow> hunk \<Rightarrow> bool" where
  "apart h k = (start h + length (removed h) < start k)"

section \<open>Example tools\<close>

text \<open>
  Four pattern texts and what the compiled patterns do on the outputs used below. The
  first is the pattern of the spec's example, with the character classes written out:
  on \<open>3:5: warning: unused variable\<close> it matches once, the whole text. The second and
  the third have no group \<open>severity\<close>; in the third the group \<open>line\<close> captures any
  text up to the first colon. In the fourth the group \<open>origin\<close> is optional and takes
  no part in a match of a text that starts with the line, and the group \<open>line\<close>
  captures any text up to the first colon.
\<close>

definition xlint_regex :: string where
  "xlint_regex = ''(?P<line>[0-9]+):(?P<column>[0-9]+): (?P<severity>[a-z]+): (?P<message>.+)''"

definition xlint_pattern :: pattern where
  "xlint_pattern =
     Pattern [''line'', ''column'', ''severity'', ''message'']
       (\<lambda>output.
          if output = ''3:5: warning: unused variable''
          then [[''line'' \<mapsto> ''3'', ''column'' \<mapsto> ''5'', ''severity'' \<mapsto> ''warning'',
                 ''message'' \<mapsto> ''unused variable'']]
          else if output = ''3:5: fatal: crash''
          then [[''line'' \<mapsto> ''3'', ''column'' \<mapsto> ''5'', ''severity'' \<mapsto> ''fatal'',
                 ''message'' \<mapsto> ''crash'']]
          else [])"

definition plain_regex :: string where
  "plain_regex = ''(?P<line>[0-9]+): (?P<message>.+)''"

definition plain_pattern :: pattern where
  "plain_pattern =
     Pattern [''line'', ''message'']
       (\<lambda>output.
          if output = ''3: unused variable''
          then [[''line'' \<mapsto> ''3'', ''message'' \<mapsto> ''unused variable'']]
          else [])"

definition loose_regex :: string where
  "loose_regex = ''(?P<line>[^:]+): (?P<message>.+)''"

definition loose_pattern :: pattern where
  "loose_pattern =
     Pattern [''line'', ''message'']
       (\<lambda>output.
          if output = ''x: bad''
          then [[''line'' \<mapsto> ''x'', ''message'' \<mapsto> ''bad'']]
          else [])"

definition origin_regex :: string where
  "origin_regex = ''(?P<origin>[a-z]+ )?(?P<line>[^:]+): (?P<severity>[a-z]+): (?P<message>.+)''"

definition origin_pattern :: pattern where
  "origin_pattern =
     Pattern [''origin'', ''line'', ''severity'', ''message'']
       (\<lambda>output.
          if output = ''7: info: ok''
          then [[''line'' \<mapsto> ''7'', ''severity'' \<mapsto> ''info'', ''message'' \<mapsto> ''ok'']]
          else if output = ''x: info: ok''
          then [[''line'' \<mapsto> ''x'', ''severity'' \<mapsto> ''info'', ''message'' \<mapsto> ''ok'']]
          else [])"

definition example_compile :: "string \<Rightarrow> pattern option" where
  "example_compile s =
     (if s = xlint_regex then Some xlint_pattern
      else if s = plain_regex then Some plain_pattern
      else if s = loose_regex then Some loose_pattern
      else if s = origin_regex then Some origin_pattern
      else None)"

text \<open>The matches found in the example outputs.\<close>

definition warning_match :: match where
  "warning_match =
     Match [''line'', ''column'', ''severity'', ''message'']
       [''line'' \<mapsto> ''3'', ''column'' \<mapsto> ''5'', ''severity'' \<mapsto> ''warning'',
        ''message'' \<mapsto> ''unused variable'']"

definition fatal_match :: match where
  "fatal_match =
     Match [''line'', ''column'', ''severity'', ''message'']
       [''line'' \<mapsto> ''3'', ''column'' \<mapsto> ''5'', ''severity'' \<mapsto> ''fatal'',
        ''message'' \<mapsto> ''crash'']"

definition plain_match :: match where
  "plain_match =
     Match [''line'', ''message''] [''line'' \<mapsto> ''3'', ''message'' \<mapsto> ''unused variable'']"

definition loose_match :: match where
  "loose_match = Match [''line'', ''message''] [''line'' \<mapsto> ''x'', ''message'' \<mapsto> ''bad'']"

definition seven_match :: match where
  "seven_match =
     Match [''origin'', ''line'', ''severity'', ''message'']
       [''line'' \<mapsto> ''7'', ''severity'' \<mapsto> ''info'', ''message'' \<mapsto> ''ok'']"

definition x_match :: match where
  "x_match =
     Match [''origin'', ''line'', ''severity'', ''message'']
       [''line'' \<mapsto> ''x'', ''severity'' \<mapsto> ''info'', ''message'' \<mapsto> ''ok'']"

text \<open>The decorated classes: the first as in the docstring of \<open>Linter\<close>, the second
  with a \<open>generate_config\<close> that returns content.\<close>

definition XLintBear :: interface where
  "XLintBear =
     \<lparr>klass_name = ''XLintBear'',
      create_arguments = (\<lambda>filename file config_file kwargs. Inr [''--lint'', filename]),
      generate_config = (\<lambda>filename file kwargs. Inr None)\<rparr>"

definition ConfigBear :: interface where
  "ConfigBear =
     \<lparr>klass_name = ''ConfigBear'',
      create_arguments = (\<lambda>filename file config_file kwargs. Inr [''--lint'', filename]),
      generate_config = (\<lambda>filename file kwargs. Inr (Some ''<xlint></xlint>''))\<rparr>"

text \<open>The options that \<open>Linter\<close> seals for the examples, and the classes made from
  them.\<close>

definition base_options :: "string \<Rightarrow> bool \<Rightarrow> options" where
  "base_options executable provides_correction =
     [(''executable'', Val (PStr executable)),
      (''provides_correction'', Val (PBool provides_correction)),
      (''use_stdin'', Val (PBool False)),
      (''use_stderr'', Val (PBool False)),
      (''config_suffix'', Val (PBool False))]"

definition xlint_options :: options where
  "xlint_options =
     (''output_regex'', Compiled xlint_pattern) # base_options ''xlint'' False
     @ [(''severity_map'', Dict default_severity_map)]"

definition plain_options :: options where
  "plain_options = (''output_regex'', Compiled plain_pattern) # base_options ''xlint'' False"

definition loose_options :: options where
  "loose_options = (''output_regex'', Compiled loose_pattern) # base_options ''xlint'' False"

definition origin_options :: options where
  "origin_options =
     (''output_regex'', Compiled origin_pattern) # base_options ''xlint'' False
     @ [(''severity_map'', Dict default_severity_map)]"

definition fixer_options :: options where
  "fixer_options =
     base_options ''fixer'' True
     @ [(''diff_severity'', Val (PInt NORMAL)),
        (''diff_message'', Val (PStr ''Inconsistency found.''))]"

definition linter_of :: "options \<Rightarrow> interface \<Rightarrow> linter" where
  "linter_of options kl =
     \<lparr>options_of = options, klass = kl, corrects = False, grabs_stderr = False,
      passes_stdin = False\<rparr>"

definition fixer :: linter where
  "fixer =
     \<lparr>options_of = fixer_options, klass = XLintBear, corrects = True, grabs_stderr = False,
      passes_stdin = False\<rparr>"

text \<open>Files and corrected texts; every line ends with a line feed.\<close>

definition ln :: "string \<Rightarrow> string" where
  "ln s = s @ [CHR 0x0A]"

definition abc_file :: "string list" where
  "abc_file = [ln ''a'', ln ''b'', ln ''c'']"

definition axc_output :: string where
  "axc_output = ln ''a'' @ ln ''X'' @ ln ''c''"

definition abcd_file :: "string list" where
  "abcd_file = [ln ''a'', ln ''b'', ln ''c'', ln ''d'']"

definition axcy_output :: string where
  "axcy_output = ln ''a'' @ ln ''X'' @ ln ''c'' @ ln ''Y''"

text \<open>
  Two surroundings in which the tool writes the same text to stdout; in the second it
  also complains on stderr and exits with status 1. Temporary files are made for a
  suffix that is a string only.
\<close>

definition example_make_temp :: "optval \<Rightarrow> exn + string" where
  "example_make_temp suffix =
     (case suffix of
        Val (PStr s) \<Rightarrow> Inr (''/tmp/tmpk3x9ab'' @ s)
      | v \<Rightarrow> Inl (TypeError [Text ''can only concatenate str to str, not '', Repr v]))"

definition quiet_env :: env where
  "quiet_env =
     \<lparr>make_temp = example_make_temp,
      tool = (\<lambda>command stdin.
                Some \<lparr>stdout = ''3:5: warning: unused variable'', stderr = [],
                      returncode = 0\<rparr>)\<rparr>"

definition failing_env :: env where
  "failing_env =
     \<lparr>make_temp = example_make_temp,
      tool = (\<lambda>command stdin.
                Some \<lparr>stdout = ''3:5: warning: unused variable'',
                      stderr = ''xlint: 1 problem found'', returncode = 1\<rparr>)\<rparr>"

section \<open>Dictionaries and the sealed options\<close>

lemma map_of_setitem: "map_of (setitem d k v) = (map_of d)(k \<mapsto> v)"
  by (simp add: setitem_def update_conv')

lemma keys_setitem: "fst ` set (setitem d k v) = insert k (fst ` set d)"
  by (simp add: setitem_def dom_update)

lemma contains_keys: "contains d k \<longleftrightarrow> k \<in> fst ` set d"
  by (simp add: contains_def map_of_eq_None_iff)

lemma assert_right_type_Dict:
  "assert_right_type v [TDict] n = Inr u \<Longrightarrow> \<exists>d. v = Dict d"
  by (cases v) (auto simp: assert_right_type_def split: if_splits)

lemma check_superfluous_Inr: "check_superfluous pop opts al = Inr opts' \<Longrightarrow> opts' = opts"
  by (auto simp: check_superfluous_def split: if_splits)

lemma create_linter_options: "create_linter options kl = Inr self \<Longrightarrow> options_of self = options \<and> klass self = kl"
  by (auto simp: create_linter_def split: sum.splits)

lemma create_linter_corrects:
  "create_linter options kl = Inr self \<Longrightarrow>
   map_of options ''provides_correction'' = Some (Val (PBool b)) \<Longrightarrow> corrects self = b"
  by (auto simp: create_linter_def getitem_def split: sum.splits option.splits)

lemma map_of_initial_options:
  "map_of (initial_options exe pc us ue cs kwargs) =
     (map_of kwargs)(''executable'' \<mapsto> Val (PStr exe), ''provides_correction'' \<mapsto> Val (PBool pc),
        ''use_stdin'' \<mapsto> Val (PBool us), ''use_stderr'' \<mapsto> Val (PBool ue),
        ''config_suffix'' \<mapsto> Val (PBool ue))"
  by (simp add: initial_options_def map_of_setitem)

lemma keys_initial_options:
  "fst ` set (initial_options exe pc us ue cs kwargs) = fst ` set kwargs \<union> set allowed_options"
  by (auto simp: initial_options_def keys_setitem allowed_options_def)

lemma regex_options_Inr:
  assumes "regex_options rc opts = Inr options'"
  shows "\<exists>p. map_of options' ''output_regex'' = Some (Compiled p) \<and>
             (if ''severity'' \<in> set (groupindex p)
              then \<exists>d. map_of options' ''severity_map'' = Some (Dict d)
              else map_of options' ''severity_map'' = None)"
proof -
  from assms obtain r p where r: "map_of opts ''output_regex'' = Some r"
    and p: "compile rc r = Inr p"
    by (auto simp: regex_options_def split: option.splits sum.splits)
  let ?o1 = "setitem opts ''output_regex'' (Compiled p)"
  have rest: "(case map_of ?o1 ''severity_map'' of
            Some sm \<Rightarrow>
              if ''severity'' \<notin> set (groupindex p)
              then Inl (ValueError [Text ''Provided `severity_map` but named group `severity` is not used in `output_regex`.''])
              else (case assert_right_type sm [TDict] ''severity_map'' of
                      Inl e \<Rightarrow> Inl e
                    | Inr u \<Rightarrow> Inr ?o1)
          | None \<Rightarrow>
              if ''severity'' \<in> set (groupindex p)
              then Inr (setitem ?o1 ''severity_map'' (Dict default_severity_map))
              else Inr ?o1) = Inr options'"
    using assms r p by (simp add: regex_options_def Let_def)
  have "map_of options' ''output_regex'' = Some (Compiled p) \<and>
             (if ''severity'' \<in> set (groupindex p)
              then \<exists>d. map_of options' ''severity_map'' = Some (Dict d)
              else map_of options' ''severity_map'' = None)"
  proof (cases "map_of ?o1 ''severity_map''")
    case None
    with rest show ?thesis
      by (auto simp: map_of_setitem split: if_splits)
  next
    case (Some sm)
    with rest obtain u where "''severity'' \<in> set (groupindex p)"
      and "assert_right_type sm [TDict] ''severity_map'' = Inr u" and "options' = ?o1"
      by (auto split: if_splits sum.splits)
    with Some assert_right_type_Dict [of sm "''severity_map''" u] show ?thesis
      by (auto simp: map_of_setitem)
  qed
  then show ?thesis by blast
qed

lemma regex_options_other:
  assumes "regex_options rc opts = Inr options'"
    and "k \<noteq> ''output_regex''" and "k \<noteq> ''severity_map''"
  shows "map_of options' k = map_of opts k"
  using assms
  by (auto simp: regex_options_def Let_def map_of_setitem
        split: option.splits sum.splits if_splits)

lemma Linter_regex_Inr:
  assumes "Linter rc pop exe False us ue cs kwargs = Inr options"
  shows "\<exists>p. map_of options ''output_regex'' = Some (Compiled p) \<and>
             (if ''severity'' \<in> set (groupindex p)
              then \<exists>d. map_of options ''severity_map'' = Some (Dict d)
              else map_of options ''severity_map'' = None)"
proof -
  from assms obtain o0 where "regex_options rc o0 = Inr options"
    by (auto simp: Linter_def Let_def split: sum.splits dest: check_superfluous_Inr)
  then show ?thesis by (rule regex_options_Inr)
qed

lemma correction_options_other:
  assumes "correction_options opts = Inr options'"
    and "k \<noteq> ''diff_severity''" and "k \<noteq> ''diff_message''"
  shows "map_of options' k = map_of opts k"
  using assms
  by (auto simp: correction_options_def map_of_setitem
        split: option.splits sum.splits if_splits bool.splits)

lemma correction_options_has:
  assumes "correction_options opts = Inr options'"
  shows "map_of options' ''diff_severity'' \<noteq> None \<and> map_of options' ''diff_message'' \<noteq> None"
  using assms
  by (auto simp: correction_options_def map_of_setitem
        split: option.splits sum.splits if_splits bool.splits)

lemma correction_options_dom:
  assumes "correction_options opts = Inr options'"
  shows "dom (map_of options') = dom (map_of opts) \<union> {''diff_severity'', ''diff_message''}"
  using assms
  by (auto simp: correction_options_def map_of_setitem
        split: option.splits sum.splits if_splits bool.splits)

lemma correction_options_keys:
  assumes "correction_options opts = Inr options'"
  shows "fst ` set options' = fst ` set opts \<union> {''diff_severity'', ''diff_message''}"
  using correction_options_dom [OF assms] by (simp only: dom_map_of_conv_image_fst)

lemma in_reverse_error:
  "in_reverse v = Inl e \<Longrightarrow>
   \<exists>d. v = Dict d \<and> e = TypeError [Text ''unhashable type: '', Repr (Val (PStr ''dict''))]"
  by (cases v rule: in_reverse.cases) auto

lemma correction_options_error:
  assumes "correction_options opts = Inl e"
  shows "(\<exists>v. map_of opts ''diff_severity'' = Some v \<and>
            ((\<exists>d. v = Dict d \<and>
                  e = TypeError [Text ''unhashable type: '', Repr (Val (PStr ''dict''))]) \<or>
             (in_reverse v = Inr False \<and>
                  e = TypeError [Text ''Invalid value for `diff_severity`: '', Repr v]))) \<or>
         (\<exists>v. map_of opts ''diff_message'' = Some v \<and> \<not> isinstance v TStr \<and>
            e = TypeError [Text ''diff_message'',
                           Text '' must be an instance of one of the given types (provided value: '',
                           Repr v, Text '')''])"
proof (cases "map_of opts ''diff_severity''")
  case None
  with assms show ?thesis
    by (auto simp: correction_options_def assert_right_type_def map_of_setitem
          split: option.splits sum.splits if_splits)
next
  case (Some v)
  show ?thesis
  proof (cases "in_reverse v")
    case (Inl e')
    with Some assms in_reverse_error [OF Inl] show ?thesis
      by (auto simp: correction_options_def)
  next
    case (Inr b)
    with Some assms show ?thesis
      by (cases b)
         (auto simp: correction_options_def assert_right_type_def
            split: option.splits sum.splits if_splits)
  qed
qed

lemma Linter_other:
  assumes "Linter rc pop exe pc us ue cs kwargs = Inr options"
    and "k \<in> set allowed_options"
  shows "map_of options k = map_of (initial_options exe pc us ue cs kwargs) k"
proof (cases pc)
  case True
  with assms(1) obtain o' where "correction_options (initial_options exe pc us ue cs kwargs) = Inr o'"
    and "check_superfluous pop o' (allowed_options @ [''diff_severity'', ''diff_message'']) = Inr options"
    by (auto simp: Linter_def Let_def split: sum.splits)
  with assms(2) show ?thesis
    by (auto simp: allowed_options_def dest!: check_superfluous_Inr
          intro!: correction_options_other)
next
  case False
  with assms(1) obtain o' where "regex_options rc (initial_options exe pc us ue cs kwargs) = Inr o'"
    and "check_superfluous pop o' (allowed_options @ [''output_regex'', ''severity_map'']) = Inr options"
    by (auto simp: Linter_def Let_def split: sum.splits)
  with assms(2) show ?thesis
    by (auto simp: allowed_options_def dest!: check_superfluous_Inr
          intro!: regex_options_other)
qed

lemma Linter_correction_Inr:
  assumes "Linter rc pop exe True us ue cs kwargs = Inr options"
  shows "map_of options ''provides_correction'' = Some (Val (PBool True)) \<and>
         map_of options ''diff_severity'' \<noteq> None \<and> map_of options ''diff_message'' \<noteq> None"
proof -
  from assms obtain o' where o: "correction_options (initial_options exe True us ue cs kwargs) = Inr o'"
    and "check_superfluous pop o' (allowed_options @ [''diff_severity'', ''diff_message'']) = Inr options"
    by (auto simp: Linter_def Let_def split: sum.splits)
  then have "options = o'" by (auto dest: check_superfluous_Inr)
  with correction_options_has [OF o] Linter_other [OF assms, of "''provides_correction''"]
  show ?thesis
    by (simp add: allowed_options_def map_of_initial_options)
qed

section \<open>Converting a match\<close>

lemma map_of_groupdict:
  "map_of (groupdict m) n =
     (if n \<in> set (group_names m)
      then Some (case group m n of None \<Rightarrow> PNone | Some s \<Rightarrow> PStr s) else None)"
  by (simp add: groupdict_def map_of_map_restrict restrict_map_def)

lemma map_of_map_severity_other:
  "k \<noteq> ''severity'' \<Longrightarrow> map_of (map_severity sm groups) k = map_of groups k"
  by (cases sm) (auto simp: map_of_setitem split: option.splits pyval.splits)

lemma convert_numbers_other:
  "convert_numbers vs g = Inr g' \<Longrightarrow> k \<notin> set vs \<Longrightarrow> map_of g' k = map_of g k"
proof (induction vs arbitrary: g)
  case Nil
  then show ?case by simp
next
  case (Cons v vs)
  then show ?case
    by (auto simp: map_of_setitem split: option.splits if_splits sum.splits)
qed

lemma convert_numbers_error_at:
  "convert_numbers vs g = Inl e \<Longrightarrow>
   \<exists>w t. w \<in> set vs \<and> map_of g w = Some (PStr t) \<and> t \<noteq> [] \<and> int_of_str t = None \<and>
     e = ValueError [Text ''invalid literal for int() with base 10: '', Repr (Val (PStr t))]"
proof (induction vs arbitrary: g)
  case Nil
  then show ?case by simp
next
  case (Cons v vs)
  have tl: "\<exists>w t. w \<in> set (v # vs) \<and> map_of g w = Some (PStr t) \<and> t \<noteq> [] \<and>
              int_of_str t = None \<and>
              e = ValueError [Text ''invalid literal for int() with base 10: '',
                              Repr (Val (PStr t))]"
    if "convert_numbers vs g1 = Inl e"
      and same: "\<And>w t. map_of g1 w = Some (PStr t) \<Longrightarrow> map_of g w = Some (PStr t)" for g1
  proof -
    from Cons.IH [OF that(1)] obtain w t where
      "w \<in> set vs" "map_of g1 w = Some (PStr t)" "t \<noteq> []" "int_of_str t = None"
      "e = ValueError [Text ''invalid literal for int() with base 10: '', Repr (Val (PStr t))]"
      by blast
    with same [of w t] show ?thesis by auto
  qed
  show ?case
  proof (cases "map_of g v")
    case None
    with Cons.prems tl [of g] show ?thesis by simp
  next
    case (Some x)
    show ?thesis
    proof (cases "truthy x")
      case False
      with Some Cons.prems tl [of g] show ?thesis by simp
    next
      case True
      show ?thesis
      proof (cases "py_int x")
        case (Inl e')
        with Some True Cons.prems have e: "e = e'" by simp
        from Inl True obtain t where "x = PStr t" "int_of_str t = None" "t \<noteq> []"
          "e' = ValueError [Text ''invalid literal for int() with base 10: '',
                            Repr (Val (PStr t))]"
          by (cases x) (auto split: option.splits)
        with Some e show ?thesis by auto
      next
        case (Inr i)
        with Some True Cons.prems have
          "convert_numbers vs (setitem g v (PInt i)) = Inl e" by simp
        then show ?thesis
          by (rule tl) (auto simp: map_of_setitem split: if_splits)
      qed
    qed
  qed
qed

lemma convert_numbers_raises:
  "v \<in> set vs \<Longrightarrow> map_of g v = Some (PStr s) \<Longrightarrow> s \<noteq> [] \<Longrightarrow> int_of_str s = None \<Longrightarrow>
   \<exists>e. convert_numbers vs g = Inl e"
proof (induction vs arbitrary: g)
  case Nil
  then show ?case by simp
next
  case (Cons w ws)
  show ?case
  proof (cases "w = v")
    case True
    with Cons.prems show ?thesis by simp
  next
    case False
    with Cons.prems have v: "v \<in> set ws" by simp
    have "\<exists>e. convert_numbers ws g = Inl e"
      by (rule Cons.IH [OF v Cons.prems(2,3,4)])
    moreover have "\<And>i. \<exists>e. convert_numbers ws (setitem g w (PInt i)) = Inl e"
      by (rule Cons.IH [OF v _ Cons.prems(3,4)]) (use False Cons.prems(2) in \<open>auto simp: map_of_setitem\<close>)
    ultimately show ?thesis
      by (auto split: option.splits sum.splits)
  qed
qed

lemma convert_numbers_succeeds:
  "(\<forall>v\<in>set vs. \<forall>s. map_of g v = Some (PStr s) \<longrightarrow> s = [] \<or> int_of_str s \<noteq> None) \<Longrightarrow>
   \<exists>g'. convert_numbers vs g = Inr g'"
proof (induction vs arbitrary: g)
  case Nil
  then show ?case by simp
next
  case (Cons w ws)
  have rest: "\<exists>g'. convert_numbers ws g = Inr g'"
    by (rule Cons.IH) (use Cons.prems in auto)
  have upd: "\<exists>g'. convert_numbers ws (setitem g w (PInt i)) = Inr g'" for i
    by (rule Cons.IH) (use Cons.prems in \<open>auto simp: map_of_setitem\<close>)
  show ?case
  proof (cases "map_of g w")
    case None
    with rest show ?thesis by simp
  next
    case (Some x)
    with rest upd Cons.prems show ?thesis
      by (cases x) (auto split: option.splits)
  qed
qed

lemma convert_numbers_value:
  "convert_numbers vs g = Inr g' \<Longrightarrow> distinct vs \<Longrightarrow> v \<in> set vs \<Longrightarrow>
   map_of g' v =
     (case map_of g v of
        None \<Rightarrow> None
      | Some x \<Rightarrow>
          if truthy x then (case py_int x of Inr i \<Rightarrow> Some (PInt i) | Inl e \<Rightarrow> Some x)
          else Some x)"
proof (induction vs arbitrary: g)
  case Nil
  then show ?case by simp
next
  case (Cons w ws)
  show ?case
  proof (cases "v = w")
    case True
    from Cons.prems(2) have w: "w \<notin> set ws" by simp
    have keep: "convert_numbers ws g1 = Inr g' \<Longrightarrow> map_of g' w = map_of g1 w" for g1
      by (rule convert_numbers_other [OF _ w])
    from Cons.prems(1) True show ?thesis
      by (auto simp: map_of_setitem split: option.splits if_splits sum.splits dest!: keep)
  next
    case neq: False
    with Cons.prems have v: "v \<in> set ws" and d: "distinct ws" by simp_all
    have ih: "convert_numbers ws g1 = Inr g' \<Longrightarrow>
      map_of g' v =
        (case map_of g1 v of
           None \<Rightarrow> None
         | Some x \<Rightarrow>
             if truthy x then (case py_int x of Inr i \<Rightarrow> Some (PInt i) | Inl e \<Rightarrow> Some x)
             else Some x)" for g1
      by (rule Cons.IH [OF _ d v])
    show ?thesis
    proof (cases "map_of g w")
      case None
      with Cons.prems(1) have "convert_numbers ws g = Inr g'" by simp
      then show ?thesis by (rule ih)
    next
      case (Some x)
      show ?thesis
      proof (cases "truthy x")
        case False
        with Some Cons.prems(1) have "convert_numbers ws g = Inr g'" by simp
        then show ?thesis by (rule ih)
      next
        case True
        with Some Cons.prems(1) obtain i where
          "convert_numbers ws (setitem g w (PInt i)) = Inr g'"
          by (auto split: sum.splits)
        from ih [OF this] neq show ?thesis by (simp add: map_of_setitem)
      qed
    qed
  qed
qed

lemma from_values_Inr:
  "from_values orig msg fl sev lno col eln ecol = Inr r \<Longrightarrow>
   origin r = orig \<and> severity r = Val (PInt sev) \<and> message r = Val msg"
  by (auto simp: from_values_def split: pyval.splits option.splits if_splits)

lemma from_values_ok:
  assumes "bad_position ''line'' lno = None" and "bad_position ''column'' col = None"
    and "bad_position ''end_line'' eln = None" and "bad_position ''end_column'' ecol = None"
  shows "from_values orig (PStr t) fl sev lno col eln ecol =
     (if valid_severity sev
      then Inr \<lparr>origin = orig, message = Val (PStr t),
                affected_code = [\<lparr>range_file = fl, start_line = lno, start_column = col,
                                  end_line = eln, end_column = ecol\<rparr>],
                severity = Val (PInt sev), diffs = []\<rparr>
      else Inl (ValueError [Text ''severity is not a valid RESULT_SEVERITY: '',
                            Repr (Val (PInt sev))]))"
  using assms by (simp add: from_values_def)

lemma convert_unfold:
  assumes sm: "getitem (options_of self) ''severity_map'' = Inr sm"
    and g1: "convert_numbers numeric_groups (map_severity sm (groupdict m)) = Inr g1"
  shows "convert_output_regex_match_to_result self m filename =
     (case py_int (dict_get g1 ''severity'' (PInt NORMAL)) of
        Inl e \<Rightarrow> Inl e
      | Inr sev \<Rightarrow>
          from_values
            (case map_of g1 ''origin'' of
               None \<Rightarrow> Bear
             | Some v \<Rightarrow> Origin (PStr (format_origin (klass_name (klass self)) v)))
            (dict_get g1 ''message'' (PStr [])) filename sev
            (dict_get g1 ''line'' PNone) (dict_get g1 ''column'' PNone)
            (dict_get g1 ''end_line'' PNone) (dict_get g1 ''end_column'' PNone))"
proof (cases "map_of g1 ''origin''")
  case None
  then show ?thesis
    using sm g1
    by (simp add: convert_output_regex_match_to_result_def split: sum.splits)
next
  case (Some v)
  then show ?thesis
    using sm g1
    by (simp add: convert_output_regex_match_to_result_def dict_get_def map_of_setitem
          split: sum.splits)
qed

lemma yield_each_prefix:
  "\<exists>n\<le>length xs. map Inr (fst (yield_each f xs)) = map f (take n xs) \<and>
     (case snd (yield_each f xs) of
        None \<Rightarrow> n = length xs
      | Some e \<Rightarrow> n < length xs \<and> f (xs ! n) = Inl e)"
proof (induction xs)
  case Nil
  then show ?case by simp
next
  case (Cons x xs)
  show ?case
  proof (cases "f x")
    case (Inl e)
    then show ?thesis by (intro exI [of _ 0]) simp
  next
    case (Inr y)
    from Cons obtain n where n: "n \<le> length xs"
      "map Inr (fst (yield_each f xs)) = map f (take n xs)"
      "case snd (yield_each f xs) of None \<Rightarrow> n = length xs
       | Some e \<Rightarrow> n < length xs \<and> f (xs ! n) = Inl e"
      by blast
    with Inr show ?thesis
      by (intro exI [of _ "Suc n"]) (auto split: prod.splits option.splits)
  qed
qed

lemma yield_each_total:
  "yield_each (\<lambda>x. Inr (g x)) xs = (map g xs, None)"
  by (induction xs) auto

lemma yield_each_const:
  "yield_each (\<lambda>x. Inl e) xs = ([], if xs = [] then None else Some e)"
  by (cases xs) auto

lemma yield_each_stops:
  "\<forall>x\<in>set xs. \<exists>y. f x = Inr y \<Longrightarrow> f x = Inl e \<Longrightarrow>
   snd (yield_each f (xs @ x # ys)) = Some e \<and>
   length (fst (yield_each f (xs @ x # ys))) = length xs"
  by (induction xs) (auto split: prod.splits)

section \<open>Lines, edit scripts and patches\<close>

lemma concat_splitlines_from: "concat (splitlines_from cur s) = cur @ s"
  by (induction cur s rule: splitlines_from.induct) auto

lemma concat_splitlines: "concat (splitlines s) = s"
  by (simp add: splitlines_def concat_splitlines_from)

lemma original_of_map_Insert [simp]: "original_of (map Insert ys) = []"
  by (induction ys) auto

lemma original_of_map_Delete [simp]: "original_of (map Delete xs) = xs"
  by (induction xs) auto

lemma corrected_of_map_Insert [simp]: "corrected_of (map Insert ys) = ys"
  by (induction ys) auto

lemma corrected_of_map_Delete [simp]: "corrected_of (map Delete xs) = []"
  by (induction xs) auto

lemma original_of_from_string_arrays: "original_of (from_string_arrays xs ys) = xs"
  by (induction xs ys rule: from_string_arrays.induct) (auto simp: Let_def)

lemma corrected_of_from_string_arrays: "corrected_of (from_string_arrays xs ys) = ys"
  by (induction xs ys rule: from_string_arrays.induct) (auto simp: Let_def)

lemma original_of_run: "original_of (takeWhile is_change cs) = deleted (takeWhile is_change cs)"
  by (induction cs rule: original_of.induct) auto

lemma corrected_of_run: "corrected_of (takeWhile is_change cs) = inserted (takeWhile is_change cs)"
  by (induction cs rule: corrected_of.induct) auto

lemma original_of_append: "original_of (as @ bs) = original_of as @ original_of bs"
  by (induction as rule: original_of.induct) auto

lemma corrected_of_append: "corrected_of (as @ bs) = corrected_of as @ corrected_of bs"
  by (induction as rule: corrected_of.induct) auto

lemma original_of_split:
  "original_of cs = deleted (takeWhile is_change cs) @ original_of (dropWhile is_change cs)"
proof -
  have "original_of cs = original_of (takeWhile is_change cs @ dropWhile is_change cs)"
    by simp
  then show ?thesis
    by (simp only: original_of_append original_of_run)
qed

lemma corrected_of_split:
  "corrected_of cs = inserted (takeWhile is_change cs) @ corrected_of (dropWhile is_change cs)"
proof -
  have "corrected_of cs = corrected_of (takeWhile is_change cs @ dropWhile is_change cs)"
    by simp
  then show ?thesis
    by (simp only: corrected_of_append corrected_of_run)
qed

lemma split_from_change:
  "is_change c \<Longrightarrow>
   split_from n (c # cs) =
     \<lparr>start = n, removed = deleted (takeWhile is_change (c # cs)),
      replacement = inserted (takeWhile is_change (c # cs))\<rparr>
     # split_from (n + length (deleted (takeWhile is_change (c # cs))))
         (dropWhile is_change (c # cs))"
  by (simp add: Let_def)

lemma split_from_Keep: "split_from n (Keep l # cs) = split_from (Suc n) cs"
  by simp

lemma unchanged_is_Keep: "\<not> is_change c \<Longrightarrow> \<exists>l. c = Keep l"
  by (cases c) auto

lemma apply_patch_at:
  "apply_patch (int (length pre) - int n + 1, pre @ del @ rest)
     \<lparr>start = n, removed = del, replacement = ins\<rparr> =
   (int (length (pre @ ins)) - int (n + length del) + 1, pre @ ins @ rest)"
  if "1 \<le> n"
  using that by (simp add: apply_patch_def Let_def)

lemma foldl_apply_patch_split_from:
  "1 \<le> n \<Longrightarrow>
   snd (foldl apply_patch (int (length pre) - int n + 1, pre @ original_of cs) (split_from n cs))
     = pre @ corrected_of cs"
proof (induction n cs arbitrary: pre rule: split_from.induct)
  case (1 n)
  then show ?case by simp
next
  case (2 n c cs)
  show ?case
  proof (cases "is_change c")
    case False
    then obtain l where l: "c = Keep l"
      using unchanged_is_Keep by blast
    have "snd (foldl apply_patch (int (length (pre @ [l])) - int (Suc n) + 1,
                (pre @ [l]) @ original_of cs) (split_from (Suc n) cs))
          = (pre @ [l]) @ corrected_of cs"
      by (rule "2.IH"(2) [OF False]) simp
    with l show ?thesis by simp
  next
    case True
    let ?run = "takeWhile is_change (c # cs)" and ?rest = "dropWhile is_change (c # cs)"
    have ih: "snd (foldl apply_patch
                (int (length (pre @ inserted ?run)) - int (n + length (deleted ?run)) + 1,
                 (pre @ inserted ?run) @ original_of ?rest)
                (split_from (n + length (deleted ?run)) ?rest))
              = (pre @ inserted ?run) @ corrected_of ?rest"
      by (rule "2.IH"(1) [OF True refl refl]) (use "2.prems" in simp)
    have o: "original_of (c # cs) = deleted ?run @ original_of ?rest"
      by (rule original_of_split)
    have c: "corrected_of (c # cs) = inserted ?run @ corrected_of ?rest"
      by (rule corrected_of_split)
    show ?thesis
      unfolding o c split_from_change [OF True] foldl_Cons apply_patch_at [OF "2.prems"]
      using ih by simp
  qed
qed

lemma apply_patches_split_diff:
  "apply_patches (split_diff (from_string_arrays file lines)) file = lines"
  using foldl_apply_patch_split_from [of 1 "[]" "from_string_arrays file lines"]
  by (simp add: apply_patches_def split_diff_def original_of_from_string_arrays
        corrected_of_from_string_arrays)

lemma split_from_lower: "h \<in> set (split_from n cs) \<Longrightarrow> n \<le> start h"
proof (induction n cs rule: split_from.induct)
  case (1 n)
  then show ?case by simp
next
  case (2 n c cs)
  show ?case
  proof (cases "is_change c")
    case False
    with "2.prems" have "h \<in> set (split_from (Suc n) cs)" by simp
    from "2.IH"(2) [OF False this] show ?thesis by simp
  next
    case True
    let ?run = "takeWhile is_change (c # cs)" and ?rest = "dropWhile is_change (c # cs)"
    from "2.prems" have "start h = n \<or> h \<in> set (split_from (n + length (deleted ?run)) ?rest)"
      unfolding split_from_change [OF True] by auto
    then show ?thesis
    proof
      assume "start h = n"
      then show ?thesis by simp
    next
      assume "h \<in> set (split_from (n + length (deleted ?run)) ?rest)"
      from "2.IH"(1) [OF True refl refl this] show ?thesis by simp
    qed
  qed
qed

lemma split_from_after_run:
  assumes "h \<in> set (split_from n (dropWhile is_change cs))"
  shows "n < start h"
proof (cases "dropWhile is_change cs")
  case Nil
  with assms show ?thesis by simp
next
  case (Cons c cs')
  then have "\<not> is_change c"
    using hd_dropWhile [of is_change cs] by (metis list.distinct(1) list.sel(1))
  with assms Cons have "h \<in> set (split_from (Suc n) cs')" by simp
  from split_from_lower [OF this] show ?thesis by simp
qed

lemma split_from_apart: "sorted_wrt apart (split_from n cs)"
proof (induction n cs rule: split_from.induct)
  case (1 n)
  then show ?case by simp
next
  case (2 n c cs)
  show ?case
  proof (cases "is_change c")
    case False
    with "2.IH"(2) show ?thesis by simp
  next
    case True
    let ?h = "\<lparr>start = n, removed = deleted (takeWhile is_change (c # cs)),
                replacement = inserted (takeWhile is_change (c # cs))\<rparr>"
    let ?rest = "split_from (n + length (deleted (takeWhile is_change (c # cs))))
                   (dropWhile is_change (c # cs))"
    have tl: "sorted_wrt apart ?rest"
      by (rule "2.IH"(1) [OF True refl refl])
    have hd: "\<forall>k\<in>set ?rest. apart ?h k"
      using split_from_after_run
        [of _ "n + length (deleted (takeWhile is_change (c # cs)))" "c # cs"]
      by (simp add: apart_def)
    show ?thesis
      unfolding split_from_change [OF True] sorted_wrt.simps using hd tl by blast
  qed
qed

lemma apart_results:
  assumes "apart h k"
  shows "result_first_line (Result orig msg [diff_range h filename] [(filename, h)] sev)
           < result_first_line (Result orig msg [diff_range k filename] [(filename, k)] sev) \<and>
         result_lines (Result orig msg [diff_range h filename] [(filename, h)] sev) \<inter>
           result_lines (Result orig msg [diff_range k filename] [(filename, k)] sev) = {}"
  using assms
  by (auto simp: apart_def result_first_line_def result_lines_def Result_def diff_range_def
        first_line_def range_lines_def)

lemma process_output_diff_total:
  assumes "map_of (options_of self) ''diff_message'' = Some msg"
    and "map_of (options_of self) ''diff_severity'' = Some sev"
  shows "process_output_diff self output filename file =
           (map (\<lambda>diff. Result Bear msg [diff_range diff filename] [(filename, diff)] sev)
              (split_diff (from_string_arrays file (splitlines output))), None)"
  using assms by (simp add: process_output_diff_def getitem_def yield_each_total)

lemma patches_of_map_Result:
  "patches_of (map (\<lambda>diff. Result orig msg (rg diff) [(filename, diff)] sev) ds) = ds"
  by (induction ds) (simp_all add: patches_of_def Result_def)

section \<open>The example tools, evaluated\<close>

lemmas example_defs = xlint_regex_def plain_regex_def loose_regex_def origin_regex_def
  example_compile_def

lemmas int_defs = int_of_str_def strip_def is_space_def parse_digits_def is_digit_def
  digit_val_def

lemma int_of_str_Nil: "int_of_str [] = None"
  by (simp add: int_of_str_def strip_def)

lemma int_of_str_examples:
  "int_of_str ''3'' = Some 3" "int_of_str ''5'' = Some 5" "int_of_str ''7'' = Some 7"
  "int_of_str '' 7'' = Some 7" "int_of_str [CHR 0x1C, CHR ''7''] = None"
  "int_of_str ''x'' = None" "int_of_str ''fatal'' = None"
  by (simp_all add: int_defs)

lemma xlint_Linter:
  "Linter example_compile hd ''xlint'' False False False ''.conf''
     [(''output_regex'', Val (PStr xlint_regex))] = Inr xlint_options"
  by (simp add: Linter_def initial_options_def allowed_options_def regex_options_def check_superfluous_def superfluous_options_def
        setitem_def example_compile_def xlint_options_def base_options_def xlint_pattern_def)

lemma plain_Linter:
  "Linter example_compile hd ''xlint'' False False False ''.conf''
     [(''output_regex'', Val (PStr plain_regex))] = Inr plain_options"
  by (simp add: Linter_def initial_options_def allowed_options_def regex_options_def check_superfluous_def superfluous_options_def
        setitem_def example_defs plain_options_def base_options_def plain_pattern_def)

lemma origin_Linter:
  "Linter example_compile hd ''xlint'' False False False ''.conf''
     [(''output_regex'', Val (PStr origin_regex))] = Inr origin_options"
  by (simp add: Linter_def initial_options_def allowed_options_def regex_options_def
        check_superfluous_def superfluous_options_def setitem_def example_defs
        origin_options_def base_options_def origin_pattern_def)

lemma fixer_Linter:
  "Linter example_compile hd ''fixer'' True False False [] [] = Inr fixer_options"
  by (simp add: Linter_def initial_options_def allowed_options_def correction_options_def
        check_superfluous_def superfluous_options_def setitem_def fixer_options_def
        base_options_def)

lemma xlint_create: "create_linter xlint_options XLintBear = Inr (linter_of xlint_options XLintBear)"
  by (simp add: create_linter_def getitem_def xlint_options_def base_options_def linter_of_def)

lemma plain_create: "create_linter plain_options XLintBear = Inr (linter_of plain_options XLintBear)"
  by (simp add: create_linter_def getitem_def plain_options_def base_options_def linter_of_def)

lemma origin_create:
  "create_linter origin_options XLintBear = Inr (linter_of origin_options XLintBear)"
  by (simp add: create_linter_def getitem_def origin_options_def base_options_def linter_of_def)

lemma config_create:
  "create_linter xlint_options ConfigBear = Inr (linter_of xlint_options ConfigBear)"
  by (simp add: create_linter_def getitem_def xlint_options_def base_options_def linter_of_def)

lemma fixer_create: "create_linter fixer_options XLintBear = Inr fixer"
  by (simp add: create_linter_def getitem_def fixer_options_def base_options_def fixer_def)

lemma loose_Linter:
  "Linter example_compile hd ''xlint'' False False False ''.conf''
     [(''output_regex'', Val (PStr loose_regex))] = Inr loose_options"
  by (simp add: Linter_def initial_options_def allowed_options_def regex_options_def
        check_superfluous_def superfluous_options_def setitem_def example_defs
        plain_regex_def loose_regex_def loose_options_def base_options_def loose_pattern_def)

lemma loose_create:
  "create_linter loose_options XLintBear = Inr (linter_of loose_options XLintBear)"
  by (simp add: create_linter_def getitem_def loose_options_def base_options_def linter_of_def)

lemma loose_finditer: "py_finditer loose_pattern ''x: bad'' = [loose_match]"
  by (simp add: py_finditer_def loose_pattern_def loose_match_def)

lemma xlint_finditer:
  "py_finditer xlint_pattern ''3:5: warning: unused variable'' = [warning_match]"
  "py_finditer xlint_pattern ''3:5: fatal: crash'' = [fatal_match]"
  by (simp_all add: py_finditer_def xlint_pattern_def warning_match_def fatal_match_def)

lemma plain_finditer: "py_finditer plain_pattern ''3: unused variable'' = [plain_match]"
  by (simp add: py_finditer_def plain_pattern_def plain_match_def)

lemma origin_finditer:
  "py_finditer origin_pattern ''7: info: ok'' = [seven_match]"
  "py_finditer origin_pattern ''x: info: ok'' = [x_match]"
  by (simp_all add: py_finditer_def origin_pattern_def seven_match_def x_match_def)

lemma warning_converted:
  "convert_output_regex_match_to_result (linter_of xlint_options XLintBear) warning_match ''a.c'' =
     Inr \<lparr>origin = Bear, message = Val (PStr ''unused variable''),
          affected_code = [\<lparr>range_file = ''a.c'', start_line = PInt 3, start_column = PInt 5,
                            end_line = PNone, end_column = PNone\<rparr>],
          severity = Val (PInt NORMAL), diffs = []\<rparr>"
  by (simp add: convert_output_regex_match_to_result_def linter_of_def xlint_options_def
        base_options_def getitem_def groupdict_def warning_match_def default_severity_map_def
        setitem_def numeric_groups_def int_of_str_examples dict_get_def from_values_def
        valid_severity_def)

lemma seven_converted:
  "convert_output_regex_match_to_result (linter_of origin_options XLintBear) seven_match ''a.c'' =
     Inr \<lparr>origin = Origin (PStr ''XLintBear (None)''), message = Val (PStr ''ok''),
          affected_code = [\<lparr>range_file = ''a.c'', start_line = PInt 7, start_column = PNone,
                            end_line = PNone, end_column = PNone\<rparr>],
          severity = Val (PInt INFO), diffs = []\<rparr>"
  by (simp add: convert_output_regex_match_to_result_def linter_of_def origin_options_def
        base_options_def getitem_def groupdict_def seven_match_def default_severity_map_def
        setitem_def numeric_groups_def int_of_str_examples dict_get_def from_values_def
        valid_severity_def format_origin_def XLintBear_def)

lemma x_raises:
  "convert_output_regex_match_to_result (linter_of origin_options XLintBear) x_match ''a.c'' =
     Inl (ValueError [Text ''invalid literal for int() with base 10: '',
                      Repr (Val (PStr ''x''))])"
  by (simp add: convert_output_regex_match_to_result_def linter_of_def origin_options_def
        base_options_def getitem_def groupdict_def x_match_def default_severity_map_def
        setitem_def numeric_groups_def int_of_str_examples)

lemma splitlines_examples:
  "splitlines axc_output = [ln ''a'', ln ''X'', ln ''c'']"
  "splitlines axcy_output = [ln ''a'', ln ''X'', ln ''c'', ln ''Y'']"
  by (simp_all add: splitlines_def axc_output_def axcy_output_def ln_def is_linebreak_def)

lemma from_string_arrays_examples:
  "from_string_arrays abc_file [ln ''a'', ln ''X'', ln ''c''] =
     [Keep (ln ''a''), Delete (ln ''b''), Insert (ln ''X''), Keep (ln ''c'')]"
  "from_string_arrays abcd_file [ln ''a'', ln ''X'', ln ''c'', ln ''Y''] =
     [Keep (ln ''a''), Delete (ln ''b''), Insert (ln ''X''), Keep (ln ''c''),
      Delete (ln ''d''), Insert (ln ''Y'')]"
  by (simp_all add: abc_file_def abcd_file_def ln_def cost_def)

lemma fixer_examples:
  "process_output fixer axc_output ''a.c'' abc_file =
     ([Result Bear (Val (PStr ''Inconsistency found.''))
         [\<lparr>range_file = ''a.c'', start_line = PInt 2, start_column = PNone,
           end_line = PInt 2, end_column = PNone\<rparr>]
         [(''a.c'', \<lparr>start = 2, removed = [ln ''b''], replacement = [ln ''X'']\<rparr>)]
         (Val (PInt NORMAL))], None)"
  "process_output fixer axcy_output ''a.c'' abcd_file =
     ([Result Bear (Val (PStr ''Inconsistency found.''))
         [\<lparr>range_file = ''a.c'', start_line = PInt 2, start_column = PNone,
           end_line = PInt 2, end_column = PNone\<rparr>]
         [(''a.c'', \<lparr>start = 2, removed = [ln ''b''], replacement = [ln ''X'']\<rparr>)]
         (Val (PInt NORMAL)),
       Result Bear (Val (PStr ''Inconsistency found.''))
         [\<lparr>range_file = ''a.c'', start_line = PInt 4, start_column = PNone,
           end_line = PInt 4, end_column = PNone\<rparr>]
         [(''a.c'', \<lparr>start = 4, removed = [ln ''d''], replacement = [ln ''Y'']\<rparr>)]
         (Val (PInt NORMAL))], None)"
  by (simp_all add: process_output_def process_output_diff_def fixer_def fixer_options_def
        base_options_def getitem_def splitlines_examples from_string_arrays_examples
        split_diff_def diff_range_def eval_nat_numeral)

section \<open>Severity, numbers and origin of a converted match\<close>

text \<open>
  Claim C1. For a pattern-mode adapter whose compiled \<open>output_regex\<close> declares no group
  \<open>severity\<close>, the claim is that every match converts, with severity NORMAL. In the
  source, \<open>Linter\<close> seals no \<open>severity_map\<close> for such an adapter (one that is supplied
  is rejected, none is installed), and the conversion starts by reading
  \<open>options["severity_map"]\<close>: for every such adapter and every match, the conversion
  raises \<open>KeyError\<close> for the key \<open>severity_map\<close>, and no result is made.
\<close>

theorem no_severity_group_raises_KeyError:
  assumes "Linter re_compile pop executable False use_stdin use_stderr config_suffix kwargs = Inr options"
    and "create_linter options kl = Inr self"
    and "getitem options ''output_regex'' = Inr (Compiled p)"
    and "''severity'' \<notin> set (groupindex p)"
  shows "convert_output_regex_match_to_result self m filename = Inl (KeyError (PStr ''severity_map''))"
proof -
  from Linter_regex_Inr [OF assms(1)] assms(3,4)
  have "map_of options ''severity_map'' = None"
    by (auto simp: getitem_def split: option.splits if_splits)
  moreover have "options_of self = options"
    using assms(2) by (simp add: create_linter_options)
  ultimately show ?thesis
    by (simp add: convert_output_regex_match_to_result_def getitem_def)
qed

theorem no_severity_group_raises_KeyError_witness:
  "Linter example_compile hd ''xlint'' False False False ''.conf''
     [(''output_regex'', Val (PStr plain_regex))] = Inr plain_options \<and>
   create_linter plain_options XLintBear = Inr (linter_of plain_options XLintBear) \<and>
   getitem plain_options ''output_regex'' = Inr (Compiled plain_pattern) \<and>
   ''severity'' \<notin> set (groupindex plain_pattern) \<and>
   py_finditer plain_pattern ''3: unused variable'' = [plain_match] \<and>
   convert_output_regex_match_to_result (linter_of plain_options XLintBear) plain_match ''a.c''
     = Inl (KeyError (PStr ''severity_map''))"
proof -
  have g: "getitem plain_options ''output_regex'' = Inr (Compiled plain_pattern)"
    by (simp add: getitem_def plain_options_def)
  have s: "''severity'' \<notin> set (groupindex plain_pattern)"
    by (simp add: plain_pattern_def)
  from no_severity_group_raises_KeyError [OF plain_Linter plain_create g s, of plain_match "''a.c''"]
    plain_Linter plain_create g s plain_finditer
  show ?thesis by simp
qed

text \<open>
  Claim C2, as amended. For a pattern-mode adapter whose severity map is a dictionary, and
  a match in which the group \<open>severity\<close> captured a label, every numeric group that
  captured a text captured a positive integer literal, and the group \<open>message\<close>, if the
  pattern has one, captured a text: when the label is a key of the map whose value is one
  of the three severities, the conversion succeeds and the severity of the result is
  exactly that value; when the label is not a key of the map, there is no fallback to
  NORMAL, the label itself goes to \<open>int()\<close>: the conversion raises the \<open>ValueError\<close>
  of \<open>int()\<close> unless the label is an integer literal, and for an integer literal the
  result has that integer as its severity if it is one of the three severities;
  otherwise no result is made, the conversion raises.
\<close>

theorem mapped_severity:
  assumes "getitem (options_of self) ''severity_map'' = Inr (Dict sm)"
    and "''severity'' \<in> set (group_names m)" and "group m ''severity'' = Some label"
    and "\<forall>v\<in>set numeric_groups. \<forall>s. v \<in> set (group_names m) \<and> group m v = Some s \<longrightarrow>
           (\<exists>i. int_of_str s = Some i \<and> 0 < i)"
    and "''message'' \<in> set (group_names m) \<longrightarrow> group m ''message'' \<noteq> None"
  shows "(\<forall>i. map_of sm label = Some (PInt i) \<and> valid_severity i \<longrightarrow>
            (\<exists>r. convert_output_regex_match_to_result self m filename = Inr r \<and>
                 severity r = Val (PInt i))) \<and>
         (map_of sm label = None \<longrightarrow>
            (case int_of_str label of
               None \<Rightarrow> convert_output_regex_match_to_result self m filename =
                        Inl (ValueError [Text ''invalid literal for int() with base 10: '',
                                         Repr (Val (PStr label))])
             | Some i \<Rightarrow>
                 if valid_severity i
                 then (\<exists>r. convert_output_regex_match_to_result self m filename = Inr r \<and>
                           severity r = Val (PInt i))
                 else (\<exists>e. convert_output_regex_match_to_result self m filename = Inl e)))"
proof -
  let ?g = "map_severity (Dict sm) (groupdict m)"
  have numeric: "map_of ?g v = map_of (groupdict m) v" if "v \<in> set numeric_groups" for v
    using that by (intro map_of_map_severity_other) (auto simp: numeric_groups_def)
  have ok: "\<forall>v\<in>set numeric_groups. \<forall>s. map_of ?g v = Some (PStr s) \<longrightarrow>
              s = [] \<or> int_of_str s \<noteq> None"
  proof (intro ballI allI impI)
    fix v s assume v: "v \<in> set numeric_groups" and s: "map_of ?g v = Some (PStr s)"
    from s numeric [OF v] have "v \<in> set (group_names m)" "group m v = Some s"
      by (auto simp: map_of_groupdict split: if_splits option.splits)
    with assms(4) v show "s = [] \<or> int_of_str s \<noteq> None" by fastforce
  qed
  from convert_numbers_succeeds [OF ok] obtain g1 where
    g1: "convert_numbers numeric_groups ?g = Inr g1" by blast
  have pos: "bad_position n (dict_get g1 v PNone) = None" if v: "v \<in> set numeric_groups" for n v
  proof -
    have d: "distinct numeric_groups" by (simp add: numeric_groups_def)
    note val = convert_numbers_value [OF g1 d v, unfolded numeric [OF v]]
    show ?thesis
    proof (cases "v \<in> set (group_names m)")
      case False
      with val show ?thesis by (simp add: map_of_groupdict dict_get_def)
    next
      case True
      show ?thesis
      proof (cases "group m v")
        case None
        with True val show ?thesis by (simp add: map_of_groupdict dict_get_def)
      next
        case (Some s)
        with assms(4) v True obtain i where i: "int_of_str s = Some i" "0 < i" by blast
        then have "s \<noteq> []" using int_of_str_Nil by auto
        with True Some i val show ?thesis by (simp add: map_of_groupdict dict_get_def)
      qed
    qed
  qed
  have msg: "\<exists>t. dict_get g1 ''message'' (PStr []) = PStr t"
  proof -
    have "map_of g1 ''message'' = map_of ?g ''message''"
      by (rule convert_numbers_other [OF g1]) (simp add: numeric_groups_def)
    also have "\<dots> = map_of (groupdict m) ''message''"
      by (rule map_of_map_severity_other) simp
    finally show ?thesis
      using assms(5) by (auto simp: dict_get_def map_of_groupdict split: option.splits)
  qed
  then obtain t where t: "dict_get g1 ''message'' (PStr []) = PStr t" by blast
  have sev: "map_of g1 ''severity'' = map_of ?g ''severity''"
    by (rule convert_numbers_other [OF g1]) (simp add: numeric_groups_def)
  have lab: "map_of (groupdict m) ''severity'' = Some (PStr label)"
    using assms(2,3) by (simp add: map_of_groupdict)
  have made: "from_values orig (PStr t) filename i
                (dict_get g1 ''line'' PNone) (dict_get g1 ''column'' PNone)
                (dict_get g1 ''end_line'' PNone) (dict_get g1 ''end_column'' PNone) =
     (if valid_severity i
      then Inr \<lparr>origin = orig, message = Val (PStr t),
                affected_code = [\<lparr>range_file = filename,
                                  start_line = dict_get g1 ''line'' PNone,
                                  start_column = dict_get g1 ''column'' PNone,
                                  end_line = dict_get g1 ''end_line'' PNone,
                                  end_column = dict_get g1 ''end_column'' PNone\<rparr>],
                severity = Val (PInt i), diffs = []\<rparr>
      else Inl (ValueError [Text ''severity is not a valid RESULT_SEVERITY: '',
                            Repr (Val (PInt i))]))" for orig i
    by (rule from_values_ok) (rule pos, simp add: numeric_groups_def)+
  note cu = convert_unfold [OF assms(1) g1, of filename, unfolded t made]
  have 1: "\<exists>r. convert_output_regex_match_to_result self m filename = Inr r \<and>
                 severity r = Val (PInt i)"
    if "map_of sm label = Some (PInt i)" and "valid_severity i" for i
  proof -
    from that(1) lab sev have "dict_get g1 ''severity'' (PInt NORMAL) = PInt i"
      by (simp add: dict_get_def map_of_setitem)
    with cu that(2) show ?thesis by simp
  qed
  have 2: "(case int_of_str label of
               None \<Rightarrow> convert_output_regex_match_to_result self m filename =
                        Inl (ValueError [Text ''invalid literal for int() with base 10: '',
                                         Repr (Val (PStr label))])
             | Some i \<Rightarrow>
                 if valid_severity i
                 then (\<exists>r. convert_output_regex_match_to_result self m filename = Inr r \<and>
                           severity r = Val (PInt i))
                 else (\<exists>e. convert_output_regex_match_to_result self m filename = Inl e))"
    if "map_of sm label = None"
  proof -
    from that lab sev have "dict_get g1 ''severity'' (PInt NORMAL) = PStr label"
      by (simp add: dict_get_def)
    with cu show ?thesis by (simp split: option.splits)
  qed
  from 1 2 show ?thesis by blast
qed

theorem mapped_severity_witness:
  "getitem (options_of (linter_of xlint_options XLintBear)) ''severity_map'' =
     Inr (Dict default_severity_map) \<and>
   py_finditer xlint_pattern ''3:5: warning: unused variable'' = [warning_match] \<and>
   group warning_match ''severity'' = Some ''warning'' \<and>
   group warning_match ''line'' = Some ''3'' \<and> int_of_str ''3'' = Some 3 \<and>
   group warning_match ''column'' = Some ''5'' \<and> int_of_str ''5'' = Some 5 \<and>
   group warning_match ''message'' = Some ''unused variable'' \<and>
   map_of default_severity_map ''warning'' = Some (PInt NORMAL) \<and> valid_severity NORMAL \<and>
   (\<exists>r. convert_output_regex_match_to_result (linter_of xlint_options XLintBear)
           warning_match ''a.c'' = Inr r \<and> severity r = Val (PInt NORMAL))"
proof -
  have 1: "getitem (options_of (linter_of xlint_options XLintBear)) ''severity_map'' =
     Inr (Dict default_severity_map)"
    by (simp add: getitem_def linter_of_def xlint_options_def base_options_def)
  have 2: "''severity'' \<in> set (group_names warning_match)"
    by (simp add: warning_match_def)
  have 3: "group warning_match ''severity'' = Some ''warning''"
    by (simp add: warning_match_def)
  have 4: "\<forall>v\<in>set numeric_groups. \<forall>s. v \<in> set (group_names warning_match) \<and>
             group warning_match v = Some s \<longrightarrow> (\<exists>i. int_of_str s = Some i \<and> 0 < i)"
    by (auto simp: numeric_groups_def warning_match_def int_of_str_examples)
  have 5: "''message'' \<in> set (group_names warning_match) \<longrightarrow>
             group warning_match ''message'' \<noteq> None"
    by (simp add: warning_match_def)
  have 6: "map_of default_severity_map ''warning'' = Some (PInt NORMAL)"
    by (simp add: default_severity_map_def)
  have 7: "valid_severity NORMAL" by (simp add: valid_severity_def)
  have 8: "group warning_match ''line'' = Some ''3''" "group warning_match ''column'' = Some ''5''"
    "group warning_match ''message'' = Some ''unused variable''"
    by (simp_all add: warning_match_def)
  from mapped_severity [OF 1 2 3 4 5, of "''a.c''"] 6 7
  have "\<exists>r. convert_output_regex_match_to_result (linter_of xlint_options XLintBear)
           warning_match ''a.c'' = Inr r \<and> severity r = Val (PInt NORMAL)"
    by blast
  with 1 3 6 7 8 xlint_finditer(1) int_of_str_examples(1,2) show ?thesis by simp
qed

text \<open>
  The claim as stated asks for severity NORMAL when the label is absent from the map. The
  adapter of the spec's example, with the default map, converts the match of
  \<open>3:5: fatal: crash\<close>: the label \<open>fatal\<close> is no key of the map, and the conversion
  raises \<open>ValueError\<close>.
\<close>

theorem unmapped_label_counterexample:
  "Linter example_compile hd ''xlint'' False False False ''.conf''
     [(''output_regex'', Val (PStr xlint_regex))] = Inr xlint_options \<and>
   create_linter xlint_options XLintBear = Inr (linter_of xlint_options XLintBear) \<and>
   getitem xlint_options ''severity_map'' = Inr (Dict default_severity_map) \<and>
   py_finditer xlint_pattern ''3:5: fatal: crash'' = [fatal_match] \<and>
   group fatal_match ''severity'' = Some ''fatal'' \<and>
   map_of default_severity_map ''fatal'' = None \<and>
   convert_output_regex_match_to_result (linter_of xlint_options XLintBear) fatal_match ''a.c'' =
     Inl (ValueError [Text ''invalid literal for int() with base 10: '',
                      Repr (Val (PStr ''fatal''))])"
  by (simp add: xlint_Linter xlint_create xlint_finditer)
     (simp add: convert_output_regex_match_to_result_def linter_of_def xlint_options_def
        base_options_def getitem_def groupdict_def fatal_match_def default_severity_map_def
        setitem_def numeric_groups_def int_of_str_examples dict_get_def)

text \<open>
  Claim C9. A match in which one of the groups \<open>line\<close>, \<open>column\<close>, \<open>end_line\<close>,
  \<open>end_column\<close> captures a non-empty text that \<open>int()\<close> rejects is never converted to
  a result. For an adapter that has a severity map, the conversion raises the
  \<open>ValueError\<close> of \<open>int()\<close> for the text that such a group captured. For an adapter
  that has none, the conversion raises the \<open>KeyError\<close> of claim C1 before it looks at
  any number. In a run, the results of the matches before this one are yielded, and
  the exception ends the sequence of the results for this file.
\<close>

theorem non_numeric_group_raises:
  assumes "v \<in> set numeric_groups" and "v \<in> set (group_names m)"
    and "group m v = Some s" and "s \<noteq> []" and "int_of_str s = None"
  shows "(\<forall>sm. getitem (options_of self) ''severity_map'' = Inr sm \<longrightarrow>
            (\<exists>w t. w \<in> set numeric_groups \<and> w \<in> set (group_names m) \<and>
                   group m w = Some t \<and> t \<noteq> [] \<and> int_of_str t = None \<and>
                   convert_output_regex_match_to_result self m filename =
                     Inl (ValueError [Text ''invalid literal for int() with base 10: '',
                                      Repr (Val (PStr t))]))) \<and>
         (\<not> contains (options_of self) ''severity_map'' \<longrightarrow>
            convert_output_regex_match_to_result self m filename =
              Inl (KeyError (PStr ''severity_map''))) \<and>
         (\<forall>p output ms ms'.
            getitem (options_of self) ''output_regex'' = Inr (Compiled p) \<and> \<not> corrects self \<and>
            py_finditer p output = ms @ m # ms' \<and>
            (\<forall>m'\<in>set ms. \<exists>r. convert_output_regex_match_to_result self m' filename = Inr r) \<longrightarrow>
            (\<exists>e. convert_output_regex_match_to_result self m filename = Inl e \<and>
                 snd (process_output self output filename file) = Some e \<and>
                 length (fst (process_output self output filename file)) = length ms))"
proof -
  have with_map: "\<exists>w t. w \<in> set numeric_groups \<and> w \<in> set (group_names m) \<and>
                   group m w = Some t \<and> t \<noteq> [] \<and> int_of_str t = None \<and>
                   convert_output_regex_match_to_result self m filename =
                     Inl (ValueError [Text ''invalid literal for int() with base 10: '',
                                      Repr (Val (PStr t))])"
    if sm: "getitem (options_of self) ''severity_map'' = Inr sm" for sm
  proof -
    let ?g = "map_severity sm (groupdict m)"
    have numeric: "map_of ?g w = map_of (groupdict m) w" if "w \<in> set numeric_groups" for w
      using that by (intro map_of_map_severity_other) (auto simp: numeric_groups_def)
    have "map_of ?g v = Some (PStr s)"
      using assms(2,3) numeric [OF assms(1)] by (simp add: map_of_groupdict)
    from convert_numbers_raises [OF assms(1) this assms(4,5)]
    obtain e where e: "convert_numbers numeric_groups ?g = Inl e" by blast
    from convert_numbers_error_at [OF e] obtain w t where
      w: "w \<in> set numeric_groups" and g: "map_of ?g w = Some (PStr t)"
      and t: "t \<noteq> []" "int_of_str t = None"
      and e': "e = ValueError [Text ''invalid literal for int() with base 10: '',
                               Repr (Val (PStr t))]"
      by blast
    from g numeric [OF w] have "w \<in> set (group_names m)" "group m w = Some t"
      by (auto simp: map_of_groupdict split: if_splits option.splits)
    moreover have "convert_output_regex_match_to_result self m filename = Inl e"
      using sm e by (simp add: convert_output_regex_match_to_result_def)
    ultimately show ?thesis using w t e' by blast
  qed
  have without_map: "convert_output_regex_match_to_result self m filename =
                       Inl (KeyError (PStr ''severity_map''))"
    if "\<not> contains (options_of self) ''severity_map''"
    using that
    by (simp add: convert_output_regex_match_to_result_def getitem_def contains_def)
  have raises: "\<exists>e. convert_output_regex_match_to_result self m filename = Inl e"
  proof (cases "contains (options_of self) ''severity_map''")
    case True
    then obtain sm where "getitem (options_of self) ''severity_map'' = Inr sm"
      by (auto simp: contains_def getitem_def)
    from with_map [OF this] show ?thesis by blast
  next
    case False
    from without_map [OF this] show ?thesis by blast
  qed
  have in_run: "\<exists>e. convert_output_regex_match_to_result self m filename = Inl e \<and>
                 snd (process_output self out filename file) = Some e \<and>
                 length (fst (process_output self out filename file)) = length ms"
    if "getitem (options_of self) ''output_regex'' = Inr (Compiled p)" and "\<not> corrects self"
      and "py_finditer p out = ms @ m # ms'"
      and "\<forall>m'\<in>set ms. \<exists>r. convert_output_regex_match_to_result self m' filename = Inr r"
    for p out ms ms'
  proof -
    from raises obtain e where e: "convert_output_regex_match_to_result self m filename = Inl e"
      by blast
    from yield_each_stops
      [of ms "\<lambda>m. convert_output_regex_match_to_result self m filename" m e ms', OF that(4) e]
      that(1,2,3) e
    show ?thesis
      by (simp add: process_output_def process_output_regex_def)
  qed
  from with_map without_map in_run show ?thesis by blast
qed

theorem non_numeric_group_raises_witness:
  "''line'' \<in> set numeric_groups \<and> ''line'' \<in> set (group_names loose_match) \<and>
   group loose_match ''line'' = Some ''x'' \<and> int_of_str ''x'' = None \<and>
   Linter example_compile hd ''xlint'' False False False ''.conf''
     [(''output_regex'', Val (PStr loose_regex))] = Inr loose_options \<and>
   create_linter loose_options XLintBear = Inr (linter_of loose_options XLintBear) \<and>
   py_finditer loose_pattern ''x: bad'' = [loose_match] \<and>
   \<not> contains (options_of (linter_of loose_options XLintBear)) ''severity_map'' \<and>
   convert_output_regex_match_to_result (linter_of loose_options XLintBear) loose_match ''a.c''
     = Inl (KeyError (PStr ''severity_map'')) \<and>
   process_output (linter_of loose_options XLintBear) ''x: bad'' ''a.c'' [] =
     ([], Some (KeyError (PStr ''severity_map''))) \<and>
   py_finditer origin_pattern ''x: info: ok'' = [x_match] \<and>
   contains (options_of (linter_of origin_options XLintBear)) ''severity_map'' \<and>
   convert_output_regex_match_to_result (linter_of origin_options XLintBear) x_match ''a.c''
     = Inl (ValueError [Text ''invalid literal for int() with base 10: '',
                        Repr (Val (PStr ''x''))])"
proof -
  have 1: "''line'' \<in> set numeric_groups" by (simp add: numeric_groups_def)
  have 2: "''line'' \<in> set (group_names loose_match)" by (simp add: loose_match_def)
  have 3: "group loose_match ''line'' = Some ''x''" by (simp add: loose_match_def)
  have 4: "''x'' \<noteq> []" by simp
  have 5: "int_of_str ''x'' = None" by (rule int_of_str_examples)
  have 6: "\<not> contains (options_of (linter_of loose_options XLintBear)) ''severity_map''"
    by (simp add: contains_def linter_of_def loose_options_def base_options_def)
  have 7: "contains (options_of (linter_of origin_options XLintBear)) ''severity_map''"
    by (simp add: contains_def linter_of_def origin_options_def base_options_def)
  have 8: "getitem (options_of (linter_of loose_options XLintBear)) ''output_regex'' =
             Inr (Compiled loose_pattern)"
    by (simp add: getitem_def linter_of_def loose_options_def)
  have 9: "\<not> corrects (linter_of loose_options XLintBear)"
    by (simp add: linter_of_def)
  note claim = non_numeric_group_raises
    [OF 1 2 3 4 5, of "linter_of loose_options XLintBear" "''a.c''" "[]"]
  from claim 6
  have k: "convert_output_regex_match_to_result (linter_of loose_options XLintBear) loose_match
          ''a.c'' = Inl (KeyError (PStr ''severity_map''))"
    by blast
  from claim [THEN conjunct2, THEN conjunct2, rule_format, of loose_pattern "''x: bad''" "[]" "[]"]
    8 9 loose_finditer k
  have "snd (process_output (linter_of loose_options XLintBear) ''x: bad'' ''a.c'' []) =
          Some (KeyError (PStr ''severity_map'')) \<and>
        length (fst (process_output (linter_of loose_options XLintBear) ''x: bad'' ''a.c'' [])) = 0"
    by simp
  then have r: "process_output (linter_of loose_options XLintBear) ''x: bad'' ''a.c'' [] =
          ([], Some (KeyError (PStr ''severity_map'')))"
    by (cases "process_output (linter_of loose_options XLintBear) ''x: bad'' ''a.c'' []") simp
  from 1 2 3 5 6 7 k r loose_Linter loose_create loose_finditer origin_finditer(2) x_raises
  show ?thesis by simp
qed

text \<open>
  Claim C10. When the pattern declares the group \<open>origin\<close> and the group takes no part
  in a match, the origin of the result made from the match is the name of the decorated
  class followed by \<open>(None)\<close>, not the name alone.
\<close>

theorem origin_without_capture:
  assumes "''origin'' \<in> set (group_names m)" and "group m ''origin'' = None"
    and "convert_output_regex_match_to_result self m filename = Inr r"
  shows "origin r = Origin (PStr (klass_name (klass self) @ '' (None)''))"
proof -
  from assms(3) obtain sm where sm: "getitem (options_of self) ''severity_map'' = Inr sm"
    by (cases "getitem (options_of self) ''severity_map''")
       (auto simp: convert_output_regex_match_to_result_def)
  with assms(3) obtain g1 where
    g1: "convert_numbers numeric_groups (map_severity sm (groupdict m)) = Inr g1"
    by (cases "convert_numbers numeric_groups (map_severity sm (groupdict m))")
       (auto simp: convert_output_regex_match_to_result_def)
  have "map_of g1 ''origin'' = map_of (map_severity sm (groupdict m)) ''origin''"
    by (rule convert_numbers_other [OF g1]) (simp add: numeric_groups_def)
  then have o: "map_of g1 ''origin'' = Some PNone"
    using assms(1,2) by (simp add: map_of_map_severity_other map_of_groupdict)
  from assms(3) obtain sev where
    "from_values (Origin (PStr (format_origin (klass_name (klass self)) PNone)))
       (dict_get g1 ''message'' (PStr [])) filename sev
       (dict_get g1 ''line'' PNone) (dict_get g1 ''column'' PNone)
       (dict_get g1 ''end_line'' PNone) (dict_get g1 ''end_column'' PNone) = Inr r"
    unfolding convert_unfold [OF sm g1] o by (auto split: sum.splits)
  from from_values_Inr [OF this] show ?thesis
    by (simp add: format_origin_def)
qed

theorem origin_without_capture_witness:
  "''origin'' \<in> set (group_names seven_match) \<and> group seven_match ''origin'' = None \<and>
   py_finditer origin_pattern ''7: info: ok'' = [seven_match] \<and>
   convert_output_regex_match_to_result (linter_of origin_options XLintBear) seven_match ''a.c'' =
     Inr \<lparr>origin = Origin (PStr ''XLintBear (None)''), message = Val (PStr ''ok''),
          affected_code = [\<lparr>range_file = ''a.c'', start_line = PInt 7, start_column = PNone,
                            end_line = PNone, end_column = PNone\<rparr>],
          severity = Val (PInt INFO), diffs = []\<rparr> \<and>
   Origin (PStr ''XLintBear (None)'') =
     Origin (PStr (klass_name (klass (linter_of origin_options XLintBear)) @ '' (None)''))"
proof -
  have 1: "''origin'' \<in> set (group_names seven_match)" by (simp add: seven_match_def)
  have 2: "group seven_match ''origin'' = None" by (simp add: seven_match_def)
  from origin_without_capture [OF 1 2 seven_converted] 1 2 seven_converted origin_finditer(1)
  show ?thesis by simp
qed

section \<open>The configuration file suffix\<close>

text \<open>
  Claim C3. The claim is that the sealed options hold the configuration suffix given to
  \<open>Linter\<close>, and that the temporary configuration file is made with that suffix. In
  the source, line 146 stores \<open>use_stderr\<close> under the key \<open>config_suffix\<close>: whatever
  suffix is given, the sealed value is the flag \<open>use_stderr\<close>, and when
  \<open>generate_config\<close> returns content, \<open>make_temp\<close> is called with that flag as its
  suffix.
\<close>

theorem config_suffix_is_use_stderr:
  assumes "Linter re_compile pop executable provides_correction use_stdin use_stderr
             config_suffix kwargs = Inr options"
    and "create_linter options kl = Inr self"
  shows "getitem (options_of self) ''config_suffix'' = Inr (Val (PBool use_stderr)) \<and>
         (\<forall>content. generate_config kl filename file settings = Inr (Some content) \<longrightarrow>
            create_config ev self filename file settings =
              (case make_temp ev (Val (PBool use_stderr)) of
                 Inl e \<Rightarrow> Inl e
               | Inr config_file \<Rightarrow> Inr (Some config_file)))"
proof -
  have "map_of options ''config_suffix'' = Some (Val (PBool use_stderr))"
    using Linter_other [OF assms(1), of "''config_suffix''"]
    by (simp add: allowed_options_def map_of_initial_options)
  moreover have "options_of self = options" "klass self = kl"
    using assms(2) by (simp_all add: create_linter_options)
  ultimately show ?thesis
    by (simp add: getitem_def create_config_def)
qed

theorem config_suffix_is_use_stderr_witness:
  "Linter example_compile hd ''xlint'' False False False ''.conf''
     [(''output_regex'', Val (PStr xlint_regex))] = Inr xlint_options \<and>
   create_linter xlint_options ConfigBear = Inr (linter_of xlint_options ConfigBear) \<and>
   getitem (options_of (linter_of xlint_options ConfigBear)) ''config_suffix'' =
     Inr (Val (PBool False)) \<and>
   generate_config ConfigBear ''a.c'' [] [] = Inr (Some ''<xlint></xlint>'') \<and>
   create_config quiet_env (linter_of xlint_options ConfigBear) ''a.c'' [] [] =
     Inl (TypeError [Text ''can only concatenate str to str, not '', Repr (Val (PBool False))])"
proof -
  have g: "generate_config ConfigBear ''a.c'' [] [] = Inr (Some ''<xlint></xlint>'')"
    by (simp add: ConfigBear_def)
  have m: "make_temp quiet_env (Val (PBool False)) =
     Inl (TypeError [Text ''can only concatenate str to str, not '', Repr (Val (PBool False))])"
    by (simp add: quiet_env_def example_make_temp_def)
  from config_suffix_is_use_stderr [OF xlint_Linter config_create,
      of "''a.c''" "[]" "[]" quiet_env] g m xlint_Linter config_create
  show ?thesis by simp
qed

section \<open>Options that a mode does not allow\<close>

text \<open>
  Claim C8, as amended. With \<open>provides_correction\<close> set and an option \<open>output_regex\<close>
  given, \<open>Linter\<close> raises, whatever else is given: no adapter is made. When the options
  \<open>diff_severity\<close> and \<open>diff_message\<close> are absent or pass their checks, the exception
  is the \<open>ValueError\<close> with the message \<open>Invalid keyword argument\<close>, the \<open>repr\<close> of a
  key and \<open>provided.\<close>; the key named is one that was given and that the mode does not
  allow, and it is \<open>output_regex\<close> when no other such key was given. When one of the two
  options is given and fails its check, the \<open>TypeError\<close> of that check is raised
  before the keys are looked at: it names \<open>diff_severity\<close> or \<open>diff_message\<close> and not
  \<open>output_regex\<close>, and for a \<open>diff_severity\<close> that cannot be hashed it names no
  option. Which element \<open>pop\<close> takes from the set of superfluous keys is left open.
\<close>

theorem correction_rejects_output_regex:
  assumes "contains kwargs ''output_regex''"
    and "\<forall>ks. ks \<noteq> [] \<longrightarrow> pop ks \<in> set ks"
  shows "\<exists>e. Linter re_compile pop executable True use_stdin use_stderr config_suffix kwargs = Inl e \<and>
           (case correction_options
                   (initial_options executable True use_stdin use_stderr config_suffix kwargs) of
              Inl e' \<Rightarrow>
                e = e' \<and>
                ((\<exists>v. map_of kwargs ''diff_severity'' = Some v \<and>
                    ((\<exists>d. v = Dict d \<and>
                          e = TypeError [Text ''unhashable type: '',
                                         Repr (Val (PStr ''dict''))]) \<or>
                     (in_reverse v = Inr False \<and>
                          e = TypeError [Text ''Invalid value for `diff_severity`: '', Repr v]))) \<or>
                 (\<exists>v. map_of kwargs ''diff_message'' = Some v \<and> \<not> isinstance v TStr \<and>
                    e = TypeError [Text ''diff_message'',
                                   Text '' must be an instance of one of the given types (provided value: '',
                                   Repr v, Text '')'']))
            | Inr options \<Rightarrow>
                (\<exists>k. e = ValueError [Text ''Invalid keyword argument '', Repr (Val (PStr k)),
                                      Text '' provided.''] \<and>
                     contains kwargs k \<and>
                     k \<notin> set (allowed_options @ [''diff_severity'', ''diff_message'']) \<and>
                     ((\<forall>k'. contains kwargs k' \<longrightarrow>
                            k' = ''output_regex'' \<or>
                            k' \<in> set (allowed_options @ [''diff_severity'', ''diff_message''])) \<longrightarrow>
                      k = ''output_regex'')))"
proof (cases "correction_options
                (initial_options executable True use_stdin use_stderr config_suffix kwargs)")
  case (Inl e)
  from correction_options_error [OF Inl] Inl show ?thesis
    by (simp add: Linter_def map_of_initial_options)
next
  case (Inr options)
  let ?allowed = "allowed_options @ [''diff_severity'', ''diff_message'']"
  let ?sup = "superfluous_options options ?allowed"
  have keys: "fst ` set options = fst ` set kwargs \<union> set ?allowed"
    using correction_options_keys [OF Inr] by (auto simp: keys_initial_options)
  have sup: "set ?sup = fst ` set kwargs - set ?allowed"
    using keys by (auto simp: superfluous_options_def)
  have "''output_regex'' \<in> set ?sup"
    using assms(1) unfolding sup by (simp add: contains_keys allowed_options_def)
  then have ne: "?sup \<noteq> []" by auto
  with assms(2) have "pop ?sup \<in> set ?sup" by blast
  then have p: "contains kwargs (pop ?sup)" "pop ?sup \<notin> set ?allowed"
    unfolding sup by (simp_all add: contains_keys)
  have "Linter re_compile pop executable True use_stdin use_stderr config_suffix kwargs =
          Inl (ValueError [Text ''Invalid keyword argument '', Repr (Val (PStr (pop ?sup))),
                           Text '' provided.''])"
    using Inr ne by (simp add: Linter_def check_superfluous_def)
  moreover have "(\<forall>k'. contains kwargs k' \<longrightarrow> k' = ''output_regex'' \<or> k' \<in> set ?allowed) \<longrightarrow>
                 pop ?sup = ''output_regex''"
    using p by blast
  ultimately show ?thesis
    using Inr p by simp
qed

theorem correction_rejects_output_regex_witness:
  "contains [(''output_regex'', Val (PStr xlint_regex))] ''output_regex'' \<and>
   hd [''output_regex''] \<in> set [''output_regex''] \<and>
   Linter example_compile hd ''fixer'' True False False []
     [(''output_regex'', Val (PStr xlint_regex))] =
     Inl (ValueError [Text ''Invalid keyword argument '', Repr (Val (PStr ''output_regex'')),
                      Text '' provided.''])"
proof -
  let ?kw = "[(''output_regex'', Val (PStr xlint_regex))]"
  have 1: "contains ?kw ''output_regex''"
    by (simp add: contains_def)
  have 2: "\<forall>ks::string list. ks \<noteq> [] \<longrightarrow> hd ks \<in> set ks"
    by simp
  have 3: "\<exists>options. correction_options (initial_options ''fixer'' True False False [] ?kw)
             = Inr options"
    by (simp add: correction_options_def initial_options_def setitem_def)
  have 4: "\<forall>k'. contains ?kw k' \<longrightarrow> k' = ''output_regex'' \<or>
             k' \<in> set (allowed_options @ [''diff_severity'', ''diff_message''])"
    by (simp add: contains_def)
  from correction_rejects_output_regex [OF 1 2, of example_compile "''fixer''" False False "[]"]
    3 4
  have "Linter example_compile hd ''fixer'' True False False [] ?kw =
     Inl (ValueError [Text ''Invalid keyword argument '', Repr (Val (PStr ''output_regex'')),
                      Text '' provided.''])"
    by auto
  with 1 show ?thesis by simp
qed

text \<open>
  The claim as stated asks for an exception that names the offending key. With
  \<open>output_regex\<close> and a dictionary as \<open>diff_severity\<close>, the lookup of line 158 raises
  \<open>TypeError\<close> with the message \<open>unhashable type: 'dict'\<close>, which names no key; with
  \<open>output_regex\<close> and 5 as \<open>diff_severity\<close>, line 159 raises the \<open>TypeError\<close> that
  names \<open>diff_severity\<close>.
\<close>

theorem checks_before_output_regex_counterexample:
  "contains [(''output_regex'', Val (PStr xlint_regex)), (''diff_severity'', Dict [])]
     ''output_regex'' \<and>
   Linter example_compile hd ''fixer'' True False False []
     [(''output_regex'', Val (PStr xlint_regex)), (''diff_severity'', Dict [])] =
     Inl (TypeError [Text ''unhashable type: '', Repr (Val (PStr ''dict''))]) \<and>
   contains [(''output_regex'', Val (PStr xlint_regex)), (''diff_severity'', Val (PInt 5))]
     ''output_regex'' \<and>
   Linter example_compile hd ''fixer'' True False False []
     [(''output_regex'', Val (PStr xlint_regex)), (''diff_severity'', Val (PInt 5))] =
     Inl (TypeError [Text ''Invalid value for `diff_severity`: '', Repr (Val (PInt 5))])"
  by (simp add: contains_def Linter_def initial_options_def correction_options_def setitem_def
        INFO_def NORMAL_def MAJOR_def)

section \<open>One result for each match\<close>

text \<open>
  Claim C5, as amended. For a pattern-mode adapter and an output text, the results
  yielded are the conversions of the first matches of the pattern in the text, in the
  order of the matches, up to the first match whose conversion raises, which ends the
  sequence with that exception; when no conversion raises, there is exactly one result
  for each match.
\<close>

theorem results_follow_matches:
  assumes "getitem (options_of self) ''output_regex'' = Inr (Compiled p)"
    and "\<not> corrects self"
  shows "\<exists>n\<le>length (py_finditer p output).
           map Inr (fst (process_output self output filename file)) =
             map (\<lambda>m. convert_output_regex_match_to_result self m filename)
               (take n (py_finditer p output)) \<and>
           (case snd (process_output self output filename file) of
              None \<Rightarrow> n = length (py_finditer p output)
            | Some e \<Rightarrow> n < length (py_finditer p output) \<and>
                convert_output_regex_match_to_result self (py_finditer p output ! n) filename
                  = Inl e)"
  using assms
    yield_each_prefix [of "py_finditer p output"
      "\<lambda>m. convert_output_regex_match_to_result self m filename"]
  by (simp add: process_output_def process_output_regex_def)

theorem results_follow_matches_witness:
  "getitem (options_of (linter_of xlint_options XLintBear)) ''output_regex'' =
     Inr (Compiled xlint_pattern) \<and>
   \<not> corrects (linter_of xlint_options XLintBear) \<and>
   py_finditer xlint_pattern ''3:5: warning: unused variable'' = [warning_match] \<and>
   (\<exists>n\<le>length (py_finditer xlint_pattern ''3:5: warning: unused variable'').
      map Inr (fst (process_output (linter_of xlint_options XLintBear)
                      ''3:5: warning: unused variable'' ''a.c'' [])) =
        map (\<lambda>m. convert_output_regex_match_to_result (linter_of xlint_options XLintBear) m
                   ''a.c'')
          (take n (py_finditer xlint_pattern ''3:5: warning: unused variable'')) \<and>
      (case snd (process_output (linter_of xlint_options XLintBear)
                   ''3:5: warning: unused variable'' ''a.c'' []) of
         None \<Rightarrow> n = length (py_finditer xlint_pattern ''3:5: warning: unused variable'')
       | Some e \<Rightarrow> n < length (py_finditer xlint_pattern ''3:5: warning: unused variable'') \<and>
           convert_output_regex_match_to_result (linter_of xlint_options XLintBear)
             (py_finditer xlint_pattern ''3:5: warning: unused variable'' ! n) ''a.c'' = Inl e))"
proof -
  have 1: "getitem (options_of (linter_of xlint_options XLintBear)) ''output_regex'' =
     Inr (Compiled xlint_pattern)"
    by (simp add: getitem_def linter_of_def xlint_options_def)
  have 2: "\<not> corrects (linter_of xlint_options XLintBear)"
    by (simp add: linter_of_def)
  from results_follow_matches [OF 1 2, of "''3:5: warning: unused variable''" "''a.c''" "[]"]
    1 2 xlint_finditer(1)
  show ?thesis by blast
qed

text \<open>
  The claim as stated asks for one result for each match, for every output text. The
  third example pattern has one match in \<open>x: info: ok\<close>, whose group \<open>line\<close> captures
  \<open>x\<close>: no result is yielded, the generator ends with the \<open>ValueError\<close> of \<open>int()\<close>.
\<close>

theorem one_match_no_result_counterexample:
  "Linter example_compile hd ''xlint'' False False False ''.conf''
     [(''output_regex'', Val (PStr origin_regex))] = Inr origin_options \<and>
   create_linter origin_options XLintBear = Inr (linter_of origin_options XLintBear) \<and>
   py_finditer origin_pattern ''x: info: ok'' = [x_match] \<and>
   process_output (linter_of origin_options XLintBear) ''x: info: ok'' ''a.c'' [] =
     ([], Some (ValueError [Text ''invalid literal for int() with base 10: '',
                            Repr (Val (PStr ''x''))]))"
  by (simp add: origin_Linter origin_create origin_finditer)
     (simp add: process_output_def process_output_regex_def linter_of_def getitem_def
        origin_options_def origin_finditer x_raises [unfolded linter_of_def origin_options_def])

section \<open>The exit status\<close>

text \<open>
  Claim C7. What \<open>run\<close> returns depends on what the tool did only through the text of
  the stream that \<open>_grab_output\<close> selects: two surroundings that make the same
  temporary files, and in which every command that starts writes the same text to the
  selected stream, give the same results, whatever the exit status and the other stream
  are. In pattern mode the results do not depend on the lines of the file either.
\<close>

theorem run_ignores_exit_status:
  assumes "make_temp ev1 = make_temp ev2"
    and "\<forall>command stdin.
           (case tool ev1 command stdin of
              None \<Rightarrow> tool ev2 command stdin = None
            | Some c1 \<Rightarrow> (\<exists>c2. tool ev2 command stdin = Some c2 \<and>
                              selected self c1 = selected self c2))"
  shows "run ev1 self filename file settings = run ev2 self filename file settings \<and>
         (\<not> corrects self \<longrightarrow>
            process_output self output filename file = process_output self output filename file')"
proof -
  have cc: "create_config ev1 self filename file settings =
            create_config ev2 self filename file settings"
    by (simp only: create_config_def assms(1))
  have ex: "(case execute_command ev1 self args stdin of
               Inl e \<Rightarrow> Inl e
             | Inr (out, err) \<Rightarrow> Inr (process_output self (grab_output self out err) filename file))
          = (case execute_command ev2 self args stdin of
               Inl e \<Rightarrow> Inl e
             | Inr (out, err) \<Rightarrow> Inr (process_output self (grab_output self out err) filename file))"
    for args stdin
  proof (cases "get_executable self")
    case (Inl e)
    then show ?thesis by (simp add: execute_command_def)
  next
    case (Inr v)
    show ?thesis
    proof (cases "\<exists>exe. v = Val (PStr exe)")
      case False
      with Inr show ?thesis
        by (cases v rule: in_reverse.cases) (simp_all add: execute_command_def)
    next
      case True
      then obtain exe where v: "v = Val (PStr exe)" by blast
      from assms(2) have "case tool ev1 (exe # args) stdin of
              None \<Rightarrow> tool ev2 (exe # args) stdin = None
            | Some c1 \<Rightarrow> (\<exists>c2. tool ev2 (exe # args) stdin = Some c2 \<and>
                              selected self c1 = selected self c2)"
        by blast
      with Inr v show ?thesis
        by (auto simp: execute_command_def run_shell_command_def selected_def
              split: option.splits)
    qed
  qed
  have r: "run ev1 self filename file settings = run ev2 self filename file settings"
    unfolding run_def cc
    by (simp add: ex split: sum.splits)
  have p: "\<not> corrects self \<longrightarrow>
            process_output self output filename file = process_output self output filename file'"
    by (simp add: process_output_def process_output_regex_def)
  from r p show ?thesis by blast
qed

theorem run_ignores_exit_status_witness:
  "make_temp quiet_env = make_temp failing_env \<and>
   tool quiet_env [''xlint'', ''--lint'', ''a.c''] None =
     Some \<lparr>stdout = ''3:5: warning: unused variable'', stderr = [], returncode = 0\<rparr> \<and>
   tool failing_env [''xlint'', ''--lint'', ''a.c''] None =
     Some \<lparr>stdout = ''3:5: warning: unused variable'', stderr = ''xlint: 1 problem found'',
           returncode = 1\<rparr> \<and>
   run quiet_env (linter_of xlint_options XLintBear) ''a.c'' [] [] =
     run failing_env (linter_of xlint_options XLintBear) ''a.c'' [] []"
proof -
  have 1: "make_temp quiet_env = make_temp failing_env"
    by (simp add: quiet_env_def failing_env_def)
  have 2: "\<forall>command stdin.
           (case tool quiet_env command stdin of
              None \<Rightarrow> tool failing_env command stdin = None
            | Some c1 \<Rightarrow> (\<exists>c2. tool failing_env command stdin = Some c2 \<and>
                  selected (linter_of xlint_options XLintBear) c1 =
                  selected (linter_of xlint_options XLintBear) c2))"
    by (simp add: quiet_env_def failing_env_def selected_def grab_output_def linter_of_def)
  from run_ignores_exit_status [OF 1 2, of "''a.c''" "[]" "[]"] 1
  show ?thesis by (simp add: quiet_env_def failing_env_def)
qed

section \<open>The results of an adapter that corrects\<close>

text \<open>
  Claim C4. For an adapter that \<open>Linter\<close> makes with \<open>provides_correction\<close> set, the
  original lines of a file and the corrected text that the tool wrote: the generator
  ends without an exception, and the patches of the results it yields, applied one
  after the other in the order of the results to the original lines, give the lines of
  the corrected text, whose concatenation is the corrected text itself.
\<close>

theorem patches_reproduce_output:
  assumes "Linter re_compile pop executable True use_stdin use_stderr config_suffix kwargs
             = Inr options"
    and "create_linter options kl = Inr self"
  shows "snd (process_output self output filename file) = None \<and>
         apply_patches (patches_of (fst (process_output self output filename file))) file
           = splitlines output \<and>
         concat (apply_patches (patches_of (fst (process_output self output filename file))) file)
           = output"
proof -
  from Linter_correction_Inr [OF assms(1)] obtain msg sev where
    pc: "map_of options ''provides_correction'' = Some (Val (PBool True))"
    and m: "map_of options ''diff_message'' = Some msg"
    and s: "map_of options ''diff_severity'' = Some sev"
    by auto
  have o: "options_of self = options"
    using assms(2) by (simp add: create_linter_options)
  have c: "corrects self"
    using create_linter_corrects [OF assms(2) pc] by simp
  have p: "process_output self output filename file =
           (map (\<lambda>diff. Result Bear msg [diff_range diff filename] [(filename, diff)] sev)
              (split_diff (from_string_arrays file (splitlines output))), None)"
    using c process_output_diff_total [OF m [folded o] s [folded o]]
    by (simp add: process_output_def)
  show ?thesis
    unfolding p
    by (simp add: patches_of_map_Result apply_patches_split_diff concat_splitlines)
qed

theorem patches_reproduce_output_witness:
  "Linter example_compile hd ''fixer'' True False False [] [] = Inr fixer_options \<and>
   create_linter fixer_options XLintBear = Inr fixer \<and>
   patches_of (fst (process_output fixer axc_output ''a.c'' abc_file)) =
     [\<lparr>start = 2, removed = [ln ''b''], replacement = [ln ''X'']\<rparr>] \<and>
   snd (process_output fixer axc_output ''a.c'' abc_file) = None \<and>
   apply_patches (patches_of (fst (process_output fixer axc_output ''a.c'' abc_file))) abc_file
     = splitlines axc_output \<and>
   concat (apply_patches (patches_of (fst (process_output fixer axc_output ''a.c'' abc_file)))
             abc_file) = axc_output"
proof -
  have "patches_of (fst (process_output fixer axc_output ''a.c'' abc_file)) =
     [\<lparr>start = 2, removed = [ln ''b''], replacement = [ln ''X'']\<rparr>]"
    by (simp add: fixer_examples patches_of_def Result_def)
  with patches_reproduce_output [OF fixer_Linter fixer_create, of axc_output "''a.c''" abc_file]
    fixer_Linter fixer_create
  show ?thesis by (simp add: concat_splitlines)
qed

text \<open>
  Claim C6. For an adapter that corrects, the results are yielded in an order in which
  the first affected line of the original file strictly increases, and the sets of
  affected lines of any two of the results are disjoint.
\<close>

theorem hunks_disjoint_and_increasing:
  assumes "corrects self"
  shows "sorted_wrt (\<lambda>r s. result_first_line r < result_first_line s \<and>
                            result_lines r \<inter> result_lines s = {})
           (fst (process_output self output filename file))"
proof (cases "getitem (options_of self) ''diff_message''")
  case (Inl e)
  with assms show ?thesis
    by (simp add: process_output_def process_output_diff_def yield_each_const)
next
  case msg: (Inr msg)
  show ?thesis
  proof (cases "getitem (options_of self) ''diff_severity''")
    case (Inl e)
    with msg assms show ?thesis
      by (simp add: process_output_def process_output_diff_def yield_each_const)
  next
    case (Inr sev)
    have "sorted_wrt (\<lambda>r s. result_first_line r < result_first_line s \<and>
                      result_lines r \<inter> result_lines s = {})
            (map (\<lambda>diff. Result Bear msg [diff_range diff filename] [(filename, diff)] sev)
               (split_diff (from_string_arrays file (splitlines output))))"
      unfolding sorted_wrt_map split_diff_def
      by (rule sorted_wrt_mono_rel [OF _ split_from_apart]) (rule apart_results)
    with msg Inr assms show ?thesis
      by (simp add: process_output_def process_output_diff_def yield_each_total)
  qed
qed

theorem hunks_disjoint_and_increasing_witness:
  "corrects fixer \<and>
   map result_first_line (fst (process_output fixer axcy_output ''a.c'' abcd_file)) = [2, 4] \<and>
   map result_lines (fst (process_output fixer axcy_output ''a.c'' abcd_file)) = [{2}, {4}] \<and>
   sorted_wrt (\<lambda>r s. result_first_line r < result_first_line s \<and>
                      result_lines r \<inter> result_lines s = {})
     (fst (process_output fixer axcy_output ''a.c'' abcd_file))"
proof -
  have 1: "corrects fixer" by (simp add: fixer_def)
  have 2: "map result_first_line (fst (process_output fixer axcy_output ''a.c'' abcd_file))
             = [2, 4]"
    by (simp add: fixer_examples result_first_line_def Result_def first_line_def)
  have 3: "map result_lines (fst (process_output fixer axcy_output ''a.c'' abcd_file))
             = [{2}, {4}]"
    by (simp add: fixer_examples result_lines_def Result_def range_lines_def)
  from hunks_disjoint_and_increasing [OF 1, of axcy_output "''a.c''" abcd_file] 1 2 3
  show ?thesis by blast
qed

end
